theory Spec2Isabelle
  imports Complex_Main
begin

section \<open>consul-generator: retry policy, exit codes, processor and runner\<close>

subsection \<open>config/convert.go: pointer-valued settings\<close>

text \<open>
  Every setting of the configuration is a Go pointer; \<open>None\<close> is the nil pointer.
  The \<open>*Val\<close> helpers read a pointer and give the zero value of the type for nil.
  A \<open>time.Duration\<close> is a signed 64-bit count of nanoseconds, modelled as an \<open>int\<close>
  with the wrap-around of its multiplication written out (\<open>wrap64\<close>).
\<close>

definition BoolVal :: "bool option \<Rightarrow> bool" where
  "BoolVal b = (case b of None \<Rightarrow> False | Some v \<Rightarrow> v)"

definition IntVal :: "int option \<Rightarrow> int" where
  "IntVal i = (case i of None \<Rightarrow> 0 | Some v \<Rightarrow> v)"

definition TimeDurationVal :: "int option \<Rightarrow> int" where
  "TimeDurationVal t = (case t of None \<Rightarrow> 0 | Some v \<Rightarrow> v)"

definition StringVal :: "string option \<Rightarrow> string" where
  "StringVal s = (case s of None \<Rightarrow> [] | Some v \<Rightarrow> v)"

definition Millisecond :: int where
  "Millisecond = 1000000"

definition Second :: int where
  "Second = 1000 * Millisecond"

definition Minute :: int where
  "Minute = 60 * Second"

definition wrap64 :: "int \<Rightarrow> int" where
  "wrap64 x = (x + 2 ^ 63) mod 2 ^ 64 - 2 ^ 63"

subsection \<open>config/retry.go\<close>

record RetryConfig =
  Attempts :: "int option"
  Backoff :: "int option"
  MaxBackoff :: "int option"
  Enabled :: "bool option"

definition DefaultRetryAttempts :: int where
  "DefaultRetryAttempts = 12"

definition DefaultRetryBackoff :: int where
  "DefaultRetryBackoff = 250 * Millisecond"

definition DefaultRetryMaxBackoff :: int where
  "DefaultRetryMaxBackoff = 1 * Minute"

definition DefaultRetryConfig :: RetryConfig where
  "DefaultRetryConfig = \<lparr>Attempts = None, Backoff = None, MaxBackoff = None, Enabled = None\<rparr>"

definition Finalize :: "RetryConfig \<Rightarrow> RetryConfig" where
  "Finalize c =
     \<lparr>Attempts = (if Attempts c = None then Some DefaultRetryAttempts else Attempts c),
      Backoff = (if Backoff c = None then Some DefaultRetryBackoff else Backoff c),
      MaxBackoff = (if MaxBackoff c = None then Some DefaultRetryMaxBackoff else MaxBackoff c),
      Enabled = (if Enabled c = None then Some True else Enabled c)\<rparr>"

definition finalized :: "RetryConfig \<Rightarrow> bool" where
  "finalized c = (Attempts c \<noteq> None \<and> Backoff c \<noteq> None \<and> MaxBackoff c \<noteq> None \<and> Enabled c \<noteq> None)"

text \<open>
  \<open>RetryFunc\<close> computes with \<open>float64\<close> in two places.

  The clamp threshold \<open>attemptsTillMaxBackoff\<close> is
  \<open>int(math.Log2(maxSleep.Seconds() / baseSleep.Seconds()))\<close>: two calls of
  \<open>Duration.Seconds\<close>, a division and \<open>math.Log2\<close>, each of which rounds, and a
  conversion that truncates toward zero. Its value is not the logarithm of the exact
  quotient in general, and the model does not compute it: it is the parameter \<open>lg\<close>, a
  function of the two durations about which nothing is assumed. The code evaluates it
  only when \<open>maxSleep > 0\<close>.

  The factor \<open>time.Duration(math.Pow(2, float64(retry)))\<close> is a power of two, which
  \<open>float64\<close> holds exactly. Where it has no 64-bit integer value, or a \<open>float64\<close> is
  not a number, the Go specification leaves the converted value to the implementation:
  the model takes it from the parameter \<open>conv\<close>.
\<close>

datatype unrepresentable = TooLarge | NotANumber

text \<open>\<open>time.Duration(math.Pow(2, float64(retry)))\<close>: a negative exponent gives a value
  below one, truncated to zero; from exponent 63 on the power has no \<open>int64\<close> value.\<close>

definition pow2_duration :: "(unrepresentable \<Rightarrow> int) \<Rightarrow> int \<Rightarrow> int" where
  "pow2_duration conv retry =
     (if retry < 0 then 0
      else if retry < 63 then 2 ^ nat retry
      else conv TooLarge)"

definition RetryFunc :: "(int \<Rightarrow> int \<Rightarrow> int) \<Rightarrow> (unrepresentable \<Rightarrow> int) \<Rightarrow> RetryConfig \<Rightarrow> int
    \<Rightarrow> bool \<times> int" where
  "RetryFunc lg conv c retry =
     (if \<not> BoolVal (Enabled c) then (False, 0)
      else if IntVal (Attempts c) > 0 \<and> retry > IntVal (Attempts c) - 1 then (False, 0)
      else
        let baseSleep = TimeDurationVal (Backoff c);
            maxSleep = TimeDurationVal (MaxBackoff c)
        in if maxSleep > 0 \<and> retry > lg maxSleep baseSleep
           then (True, maxSleep)
           else (True, wrap64 (pow2_duration conv retry * baseSleep)))"

text \<open>The conversion of an unrepresentable \<open>float64\<close> on amd64: the minimum
  \<open>int64\<close>, whatever the operand.\<close>

definition conv_amd64 :: "unrepresentable \<Rightarrow> int" where
  "conv_amd64 u = - (2 ^ 63)"

text \<open>A stand-in for the threshold where a closed term is needed: the same threshold for
  all durations.\<close>

definition lg_const :: "int \<Rightarrow> int \<Rightarrow> int \<Rightarrow> int" where
  "lg_const t maxSleep baseSleep = t"

subsection \<open>The exit codes and the command-line supervisor (package main)\<close>

text \<open>
  A parenthesised Go constant declaration is a list of specifications. Within the group
  \<open>iota\<close> is the index of the specification, counted from zero, and a specification
  with no expression repeats the expression of the one before it.
\<close>

datatype const_expr = Lit int | Iota | Plus const_expr const_expr

fun eval_const :: "int \<Rightarrow> const_expr \<Rightarrow> int" where
  "eval_const i (Lit n) = n"
| "eval_const i Iota = i"
| "eval_const i (Plus a b) = eval_const i a + eval_const i b"

fun const_group :: "int \<Rightarrow> const_expr \<Rightarrow> (string \<times> const_expr option) list \<Rightarrow> (string \<times> int) list" where
  "const_group i prev [] = []"
| "const_group i prev ((name, Some e) # specs) = (name, eval_const i e) # const_group (i + 1) e specs"
| "const_group i prev ((name, None) # specs) = (name, eval_const i prev) # const_group (i + 1) prev specs"

text \<open>The constant group of package main, as declared.\<close>

definition main_consts :: "(string \<times> int) list" where
  "main_consts = const_group 0 (Lit 0)
     [(''ExitCodeOK'', Some (Lit 0)),
      (''ExitCodeError'', Some (Plus (Lit 10) Iota)),
      (''ExitCodeInterrupt'', None),
      (''ExitCodeParseFlagsError'', None),
      (''ExitCodeRunnerError'', None),
      (''ExitCodeConfigError'', None)]"

text \<open>The value of a declared constant; every name looked up below is declared.\<close>

definition const_value :: "(string \<times> int) list \<Rightarrow> string \<Rightarrow> int" where
  "const_value decls name = (case map_of decls name of Some v \<Rightarrow> v | None \<Rightarrow> 0)"

definition ExitCodeOK :: int where
  "ExitCodeOK = const_value main_consts ''ExitCodeOK''"

definition ExitCodeError :: int where
  "ExitCodeError = const_value main_consts ''ExitCodeError''"

definition ExitCodeInterrupt :: int where
  "ExitCodeInterrupt = const_value main_consts ''ExitCodeInterrupt''"

definition ExitCodeParseFlagsError :: int where
  "ExitCodeParseFlagsError = const_value main_consts ''ExitCodeParseFlagsError''"

definition ExitCodeRunnerError :: int where
  "ExitCodeRunnerError = const_value main_consts ''ExitCodeRunnerError''"

definition ExitCodeConfigError :: int where
  "ExitCodeConfigError = const_value main_consts ''ExitCodeConfigError''"

text \<open>
  \<open>Cli.Run\<close> is driven by its environment: the result of \<open>ParseFlags\<close>, the outcome of
  each configuration resolution and runner creation, and what the \<open>select\<close> of the main
  loop receives. A runner error may carry an exit status of its own (\<open>ErrExitable\<close>).
  A received signal comes with the outcome of the reload it would trigger. When the
  events run out the loop is still waiting and \<open>Run\<close> has not returned (\<open>None\<close>).
\<close>

datatype parse_result = ParseHelp | ParseError | Parsed bool

record startup =
  load_ok :: bool
  setup_ok :: bool
  runner_ok :: bool
  ReloadSignal :: nat
  KillSignal :: nat

datatype cli_event =
    RunnerErr "int option"
  | RunnerDone
  | Signal nat startup
  | StopRequested

fun cli_loop :: "startup \<Rightarrow> cli_event list \<Rightarrow> int option" where
  "cli_loop config [] = None"
| "cli_loop config (RunnerErr hint # events) =
     Some (case hint of Some status \<Rightarrow> status | None \<Rightarrow> ExitCodeRunnerError)"
| "cli_loop config (RunnerDone # events) = Some ExitCodeOK"
| "cli_loop config (Signal s reload # events) =
     (if s = ReloadSignal config then
        if \<not> load_ok reload then Some ExitCodeConfigError
        else if \<not> setup_ok reload then Some ExitCodeConfigError
        else if \<not> runner_ok reload then Some ExitCodeRunnerError
        else cli_loop reload events
      else if s = KillSignal config then Some ExitCodeInterrupt
      else Some ExitCodeInterrupt)"
| "cli_loop config (StopRequested # events) = Some ExitCodeOK"

definition Cli_Run :: "parse_result \<Rightarrow> startup \<Rightarrow> cli_event list \<Rightarrow> int option" where
  "Cli_Run parsed config events =
     (case parsed of
        ParseHelp \<Rightarrow> Some 0
      | ParseError \<Rightarrow> Some ExitCodeParseFlagsError
      | Parsed isVersion \<Rightarrow>
          if \<not> load_ok config then Some ExitCodeConfigError
          else if \<not> setup_ok config then Some ExitCodeConfigError
          else if isVersion then Some ExitCodeOK
          else if \<not> runner_ok config then Some ExitCodeRunnerError
          else cli_loop config events)"

text \<open>The exit statuses that a runner error hands to the supervisor in a run.\<close>

fun exit_hints :: "cli_event list \<Rightarrow> int set" where
  "exit_hints [] = {}"
| "exit_hints (RunnerErr (Some status) # events) = insert status (exit_hints events)"
| "exit_hints (e # events) = exit_hints events"

subsection \<open>The operating system and the libraries, as the program uses them\<close>

text \<open>
  A Go \<open>error\<close> is a value with a message. The file system holds regular files with
  their bytes and directories; \<open>denied\<close> are the paths that cannot be created, opened
  for writing or removed (a missing parent, permissions, a read-only device),
  \<open>unreadable\<close> the files that cannot be read, and \<open>room\<close> the number of bytes a write
  to a path accepts before the device fails (\<open>None\<close>: no limit). The directory set names
  only the directories the program refers to: parents are not tracked.
\<close>

datatype error = Error string

fun message :: "error \<Rightarrow> string" where
  "message (Error s) = s"

record filesystem =
  files :: "string \<rightharpoonup> string"
  dirs :: "string set"
  denied :: "string set"
  unreadable :: "string set"
  room :: "string \<Rightarrow> nat option"

text \<open>\<open>ioutil.ReadFile\<close>.\<close>

definition ReadFile :: "filesystem \<Rightarrow> string \<Rightarrow> error + string" where
  "ReadFile fs name =
     (case files fs name of
        None \<Rightarrow> Inl (Error (''open '' @ name @ '': no such file or directory''))
      | Some b \<Rightarrow>
          if name \<in> unreadable fs then Inl (Error (''open '' @ name @ '': permission denied''))
          else Inr b)"

text \<open>\<open>os.Create\<close>, and \<open>os.OpenFile\<close> with \<open>O_CREATE|O_WRONLY|O_TRUNC\<close>: the file
  exists and is empty afterwards.\<close>

definition Create :: "filesystem \<Rightarrow> string \<Rightarrow> error + filesystem" where
  "Create fs name =
     (if name \<in> dirs fs then Inl (Error (''open '' @ name @ '': is a directory''))
      else if name \<in> denied fs then Inl (Error (''open '' @ name @ '': permission denied''))
      else Inr (fs\<lparr>files := (files fs)(name \<mapsto> [])\<rparr>))"

text \<open>\<open>io.Copy\<close> and \<open>WriteString\<close> into a file that was just created or truncated:
  a short write leaves what the device accepted.\<close>

definition WriteAll :: "filesystem \<Rightarrow> string \<Rightarrow> string \<Rightarrow> filesystem \<times> error option" where
  "WriteAll fs name s =
     (case room fs name of
        None \<Rightarrow> (fs\<lparr>files := (files fs)(name \<mapsto> s)\<rparr>, None)
      | Some n \<Rightarrow>
          if length s \<le> n then (fs\<lparr>files := (files fs)(name \<mapsto> s)\<rparr>, None)
          else (fs\<lparr>files := (files fs)(name \<mapsto> take n s)\<rparr>,
                Some (Error (''write '' @ name @ '': no space left on device''))))"

datatype file_info = IsDir | IsFile | NotExist

text \<open>\<open>os.Stat\<close>; its only error here is that nothing exists at the path.\<close>

definition Stat :: "filesystem \<Rightarrow> string \<Rightarrow> file_info" where
  "Stat fs name =
     (if name \<in> dirs fs then IsDir
      else if name \<in> dom (files fs) then IsFile
      else NotExist)"

text \<open>\<open>os.MkdirAll\<close>.\<close>

definition MkdirAll :: "filesystem \<Rightarrow> string \<Rightarrow> error + filesystem" where
  "MkdirAll fs name =
     (if name \<in> dirs fs then Inr fs
      else if name \<in> dom (files fs) then Inl (Error (''mkdir '' @ name @ '': not a directory''))
      else if name \<in> denied fs then Inl (Error (''mkdir '' @ name @ '': permission denied''))
      else Inr (fs\<lparr>dirs := insert name (dirs fs)\<rparr>))"

text \<open>\<open>os.Remove\<close>.\<close>

definition Remove :: "filesystem \<Rightarrow> string \<Rightarrow> error + filesystem" where
  "Remove fs name =
     (if name \<in> denied fs then Inl (Error (''remove '' @ name @ '': permission denied''))
      else if name \<in> dirs fs then Inr (fs\<lparr>dirs := dirs fs - {name}\<rparr>)
      else if name \<in> dom (files fs) then Inr (fs\<lparr>files := (files fs)(name := None)\<rparr>)
      else Inl (Error (''remove '' @ name @ '': no such file or directory'')))"

text \<open>
  The library functions that the program calls and that are not part of it are
  parameters: \<open>Sum256\<close> is the SHA-256 digest of a byte string and \<open>Join\<close> is
  \<open>filepath.Join\<close> of a directory and a file name.
\<close>

record lib =
  Sum256 :: "string \<Rightarrow> string"
  Join :: "string \<Rightarrow> string \<Rightarrow> string"

text \<open>\<open>hex.EncodeToString\<close>: two lower-case hexadecimal digits for each byte (the
  index into the digits is below 16).\<close>

definition hexdigit :: "nat \<Rightarrow> char" where
  "hexdigit n = ''0123456789abcdef'' ! n"

definition EncodeToString :: "string \<Rightarrow> string" where
  "EncodeToString src =
     concat (map (\<lambda>c. [hexdigit (of_char c div 16), hexdigit (of_char c mod 16)]) src)"

text \<open>\<open>strings.Split\<close> at a one-byte separator: never an empty list.\<close>

fun Split :: "string \<Rightarrow> char \<Rightarrow> string list" where
  "Split [] sep = [[]]"
| "Split (c # cs) sep =
     (if c = sep then [] # Split cs sep
      else (case Split cs sep of [] \<Rightarrow> [[c]] | part # parts \<Rightarrow> (c # part) # parts))"

text \<open>\<open>fmt.Sprintf("%d", n)\<close> for a process id.\<close>

fun decimal :: "nat \<Rightarrow> string" where
  "decimal n =
     (if n < 10 then [''0123456789'' ! n]
      else decimal (n div 10) @ [''0123456789'' ! (n mod 10)])"

declare decimal.simps [simp del]

text \<open>
  What the program does to the outside, in order: the lines it logs (one constructor for
  each \<open>log.Printf\<close> of the source, with its arguments), the values it sends on the
  error channel and on the done channel, and the closing of the done channel. A send is
  recorded when it is made; the receiver is not part of the model.

  The log lines of the processor, by their format:
  \<^item> \<open>WillBeCreated\<close>: \<^verbatim>\<open>File %s will be created with content:\<close>, with path and content;
  \<^item> \<open>Saved\<close>: \<^verbatim>\<open>[INFO] (processor) Saved: %s\<close>;
  \<^item> \<open>ProcessorErr\<close>: \<^verbatim>\<open>[ERR] (processor) %s\<close>, written by \<open>logError\<close>;
  \<^item> \<open>PathEmpty\<close>: \<^verbatim>\<open>[WARNING] (processor) Consul path (%s) empty or does not exists\<close>;
  \<^item> \<open>ConsulPath\<close>: \<^verbatim>\<open>[INFO] (processor) Consul Path: %s\<close>;
  \<^item> \<open>Skipping\<close>: \<^verbatim>\<open>[INFO] (processor) Skipping: %s\<close>, with the key;
  \<^item> \<open>CreatingProcessor\<close>: \<^verbatim>\<open>[INFO] (processor) creating new processor\<close>;
  \<^item> \<open>DestinationCreating\<close>: \<^verbatim>\<open>[INFO] (processor) Destination folder does not exists. Creating...\<close>;
  \<^item> \<open>DestinationWillBeCreated\<close>: \<^verbatim>\<open>Destination folder does not exists. It will be created\<close>.

  Those of the runner:
  \<^item> \<open>RunnerStarting\<close>: \<^verbatim>\<open>[INFO] (runner) starting\<close>;
  \<^item> \<open>CreatingPid\<close>: \<^verbatim>\<open>[INFO] creating pid file at %q\<close>;
  \<^item> \<open>RunningInitial\<close>: \<^verbatim>\<open>[DEBUG] (runner) running initial templates\<close>;
  \<^item> \<open>InitiatingRun\<close>: \<^verbatim>\<open>[DEBUG] (runner) initiating run\<close>;
  \<^item> \<open>ReceivedFinish\<close>: \<^verbatim>\<open>[INFO] (runner) received finish\<close>;
  \<^item> \<open>RunnerStopping\<close>: \<^verbatim>\<open>[INFO] (runner) stopping\<close>;
  \<^item> \<open>CouldNotRemovePid\<close>: \<^verbatim>\<open>[WARN] (runner) could not remove pid at %q: %s\<close>;
  \<^item> \<open>RemovingPid\<close>: \<^verbatim>\<open>[DEBUG] removing pid file at %q\<close>.
\<close>

datatype logline =
    WillBeCreated string string
  | Saved string
  | ProcessorErr error
  | PathEmpty string
  | ConsulPath string
  | Skipping string
  | CreatingProcessor
  | DestinationCreating
  | DestinationWillBeCreated
  | RunnerStarting
  | CreatingPid string
  | RunningInitial
  | InitiatingRun
  | ReceivedFinish
  | RunnerStopping
  | CouldNotRemovePid string error
  | RemovingPid string

datatype event = Log logline | ErrCh error | DoneCh bool | CloseDoneCh

subsection \<open>The processor (package processor)\<close>

record Config =
  From :: string
  To :: string
  PidFile :: "string option"

record KVPair =
  Key :: string
  Value :: string

text \<open>The processor holds a copy of the finalized configuration and its two modes; its
  channels are those of the runner. The runner has the same three fields and is declared
  below as an extension of this record.\<close>

record Processor =
  config :: Config
  once :: bool
  dry :: bool

text \<open>The constant group of package processor.\<close>

definition processor_consts :: "(string \<times> int) list" where
  "processor_consts = const_group 0 (Lit 0)
     [(''ExitCodeOK'', Some (Lit 0)),
      (''ExitCodeError'', Some (Plus (Lit 10) Iota))]"

definition save :: "'a Processor_scheme \<Rightarrow> filesystem \<Rightarrow> string \<Rightarrow> string
    \<Rightarrow> error option \<times> filesystem \<times> event list" where
  "save p fs filepath s =
     (if dry p then (None, fs, [Log (WillBeCreated filepath s)])
      else
        case Create fs filepath of
          Inl err \<Rightarrow> (Some err, fs, [])
        | Inr fs1 \<Rightarrow>
            (case WriteAll fs1 filepath s of
               (fs2, Some err) \<Rightarrow> (Some err, fs2, [])
             | (fs2, None) \<Rightarrow> (None, fs2, [Log (Saved filepath)])))"

definition getHash :: "lib \<Rightarrow> string \<Rightarrow> string" where
  "getHash L v = EncodeToString (Sum256 L v)"

definition calculateFileHash :: "lib \<Rightarrow> filesystem \<Rightarrow> string \<Rightarrow> string \<times> error option" where
  "calculateFileHash L fs filepath =
     (case ReadFile fs filepath of
        Inl err \<Rightarrow> ([], Some err)
      | Inr f \<Rightarrow> (getHash L f, None))"

text \<open>\<open>logError\<close> logs the error and returns the status.\<close>

definition logError :: "error \<Rightarrow> int \<Rightarrow> int \<times> event list" where
  "logError err status = (status, [Log (ProcessorErr err)])"

definition init :: "'a Processor_scheme \<Rightarrow> filesystem \<Rightarrow> filesystem \<times> event list" where
  "init p fs =
     (if dry p = False then
        (if Stat fs (To (config p)) = NotExist then
           (case MkdirAll fs (To (config p)) of
              Inl err \<Rightarrow> (fs, [Log DestinationCreating, ErrCh err] @ snd (logError err (const_value processor_consts ''ExitCodeError'')))
            | Inr fs' \<Rightarrow> (fs', [Log DestinationCreating]))
         else (fs, []))
      else (fs, [Log DestinationWillBeCreated]))"

text \<open>\<open>NewProcessor\<close>: when the client set cannot be created the error is only logged,
  and the call that follows dereferences the nil client set and panics (\<open>Inl\<close>).\<close>

definition NewProcessor :: "Config \<Rightarrow> bool \<Rightarrow> bool \<Rightarrow> error option \<Rightarrow> filesystem
    \<Rightarrow> event list + (Processor \<times> filesystem \<times> event list)" where
  "NewProcessor cfg once_flag dry_flag client fs =
     (case client of
        Some err \<Rightarrow>
          Inl (Log CreatingProcessor # snd (logError err (const_value processor_consts ''ExitCodeError'')))
      | None \<Rightarrow>
          let processor = \<lparr>config = cfg, once = once_flag, dry = dry_flag\<rparr>;
              (fs', ev) = init processor fs
          in Inr (processor, fs', Log CreatingProcessor # ev))"

text \<open>The body of the loop of \<open>Process\<close> for one listed pair: the error of a failed
  save, if any, with the file system afterwards and what was logged and sent.\<close>

definition process_pair :: "lib \<Rightarrow> 'a Processor_scheme \<Rightarrow> KVPair \<Rightarrow> filesystem
    \<Rightarrow> error option \<times> filesystem \<times> event list" where
  "process_pair L p pair fs =
     (let filename = last (Split (Key pair) (CHR ''/'')) in
      if filename \<noteq> [] then
        let file = Join L (To (config p)) filename;
            fHash = fst (calculateFileHash L fs file);
            sHash = getHash L (Value pair)
        in if fHash \<noteq> sHash then
             (case save p fs file (Value pair) of
                (Some err, fs', ev) \<Rightarrow>
                  (Some err, fs', ev @ [ErrCh err] @ snd (logError err (const_value processor_consts ''ExitCodeError'')))
              | (None, fs', ev) \<Rightarrow> (None, fs', ev))
           else (None, fs, [Log (Skipping (Key pair))])
      else (None, fs, []))"

text \<open>The loop over the listed pairs returns at the first failed save.\<close>

fun process_pairs :: "lib \<Rightarrow> 'a Processor_scheme \<Rightarrow> KVPair list \<Rightarrow> filesystem
    \<Rightarrow> error option \<times> filesystem \<times> event list" where
  "process_pairs L p [] fs = (None, fs, [])"
| "process_pairs L p (pair # keys) fs =
     (case process_pair L p pair fs of
        (Some err, fs', ev) \<Rightarrow> (Some err, fs', ev)
      | (None, fs', ev) \<Rightarrow>
          (case process_pairs L p keys fs' of (r, fs'', ev') \<Rightarrow> (r, fs'', ev @ ev')))"

text \<open>\<open>Process\<close>: \<open>kv\<close> is the listing operation of the remote store.\<close>

definition Process :: "lib \<Rightarrow> 'a Processor_scheme \<Rightarrow> (string \<Rightarrow> error + KVPair list) \<Rightarrow> filesystem
    \<Rightarrow> int \<times> filesystem \<times> event list" where
  "Process L p kv fs =
     (case kv (From (config p)) of
        Inl err \<Rightarrow>
          (fst (logError err (const_value processor_consts ''ExitCodeError'')), fs,
           ErrCh err # snd (logError err (const_value processor_consts ''ExitCodeError'')))
      | Inr keys \<Rightarrow>
          let ev0 = [Log (if length keys \<le> 0 then PathEmpty (From (config p))
                          else ConsulPath (From (config p)))]
          in case process_pairs L p keys fs of
               (Some err, fs', ev) \<Rightarrow>
                 (fst (logError err (const_value processor_consts ''ExitCodeError'')), fs', ev0 @ ev)
             | (None, fs', ev) \<Rightarrow>
                 (const_value processor_consts ''ExitCodeOK'', fs',
                  ev0 @ ev @ (if once p \<or> dry p then [DoneCh True] else [])))"

subsection \<open>The runner (package manager)\<close>

text \<open>The runner's configuration and modes, its \<open>stopped\<close> flag, and whether its done
  channel has been closed. Closing a closed channel panics.\<close>

record Runner = Processor +
  stopped :: bool
  done_closed :: bool

text \<open>\<open>NewRunner\<close> with a finalized configuration: both channels are fresh.\<close>

definition NewRunner :: "Config \<Rightarrow> bool \<Rightarrow> bool \<Rightarrow> Runner" where
  "NewRunner cfg dry_flag once_flag =
     \<lparr>config = cfg, once = once_flag, dry = dry_flag, stopped = False, done_closed = False\<rparr>"

definition storePid :: "Runner \<Rightarrow> nat \<Rightarrow> filesystem \<Rightarrow> error option \<times> filesystem \<times> event list" where
  "storePid r pid fs =
     (let path = StringVal (PidFile (config r)) in
      if path = [] then (None, fs, [])
      else
        case Create fs path of
          Inl err \<Rightarrow>
            (Some (Error (''runner: could not open pid file: '' @ message err)), fs,
             [Log (CreatingPid path)])
        | Inr fs1 \<Rightarrow>
            (case WriteAll fs1 path (decimal pid) of
               (fs2, Some err) \<Rightarrow>
                 (Some (Error (''runner: could not write to pid file: '' @ message err)), fs2,
                  [Log (CreatingPid path)])
             | (fs2, None) \<Rightarrow> (None, fs2, [Log (CreatingPid path)])))"

definition deletePid :: "Runner \<Rightarrow> filesystem \<Rightarrow> error option \<times> filesystem \<times> event list" where
  "deletePid r fs =
     (let path = StringVal (PidFile (config r)) in
      if path = [] then (None, fs, [])
      else
        case Stat fs path of
          NotExist \<Rightarrow>
            (Some (Error (''runner: could not remove pid file: stat '' @ path
                          @ '': no such file or directory'')), fs, [Log (RemovingPid path)])
        | IsDir \<Rightarrow>
            (Some (Error ''runner: specified pid file path is directory''), fs,
             [Log (RemovingPid path)])
        | IsFile \<Rightarrow>
            (case Remove fs path of
               Inl err \<Rightarrow>
                 (Some (Error (''runner: could not remove pid file: '' @ message err)), fs,
                  [Log (RemovingPid path)])
             | Inr fs' \<Rightarrow> (None, fs', [Log (RemovingPid path)])))"

text \<open>\<open>Run\<close> logs one line and returns nil.\<close>

definition Run :: "Runner \<Rightarrow> error option \<times> event list" where
  "Run r = (None, [Log InitiatingRun])"

text \<open>\<open>Stop\<close>, under the lock: \<open>Inl\<close> is the panic of closing a closed channel.\<close>

definition Stop :: "Runner \<Rightarrow> filesystem \<Rightarrow> string + (Runner \<times> filesystem \<times> event list)" where
  "Stop r fs =
     (if stopped r then Inr (r, fs, [])
      else
        case deletePid r fs of
          (err, fs', ev) \<Rightarrow>
            let warn = (case err of
                          Some e \<Rightarrow> [Log (CouldNotRemovePid (StringVal (PidFile (config r))) e)]
                        | None \<Rightarrow> [])
            in if done_closed r then Inl ''close of closed channel''
               else Inr (r\<lparr>stopped := True, done_closed := True\<rparr>, fs',
                         [Log RunnerStopping] @ ev @ warn @ [CloseDoneCh]))"

text \<open>Calls of \<open>Stop\<close> one after the other, as the mutex serializes them.\<close>

fun Stop_times :: "nat \<Rightarrow> Runner \<Rightarrow> filesystem \<Rightarrow> string + (Runner \<times> filesystem \<times> event list)" where
  "Stop_times 0 r fs = Inr (r, fs, [])"
| "Stop_times (Suc n) r fs =
     (case Stop r fs of
        Inl panic \<Rightarrow> Inl panic
      | Inr (r', fs', ev) \<Rightarrow>
          (case Stop_times n r' fs' of
             Inl panic \<Rightarrow> Inl panic
           | Inr (r'', fs'', ev') \<Rightarrow> Inr (r'', fs'', ev @ ev')))"

text \<open>
  What the \<open>select\<close> of the loop of \<open>Start\<close> receives: a value on the error channel, a
  tick of the timer (with the remote store as it is then), or a value on, or the closing
  of, the done channel. When the wake-ups run out the loop is still selecting.
\<close>

datatype wake = ErrReceived | Tick "string \<Rightarrow> error + KVPair list" | DoneReceived

datatype outcome = Returned | Selecting | Panicked

fun runner_loop :: "lib \<Rightarrow> Processor \<Rightarrow> wake list \<Rightarrow> filesystem \<Rightarrow> outcome \<times> filesystem \<times> event list" where
  "runner_loop L pr [] fs = (Selecting, fs, [])"
| "runner_loop L pr (ErrReceived # wakes) fs = (Returned, fs, [])"
| "runner_loop L pr (Tick kv # wakes) fs =
     (case Process L pr kv fs of
        (status, fs', ev) \<Rightarrow>
          (case runner_loop L pr wakes fs' of (out, fs'', ev') \<Rightarrow> (out, fs'', ev @ ev')))"
| "runner_loop L pr (DoneReceived # wakes) fs = (Returned, fs, [Log ReceivedFinish])"

text \<open>\<open>Start\<close>: \<open>pid\<close> is the process id and \<open>client\<close> the error, if any, of creating
  the client set.\<close>

definition Start :: "lib \<Rightarrow> Runner \<Rightarrow> nat \<Rightarrow> error option \<Rightarrow> filesystem \<Rightarrow> wake list
    \<Rightarrow> outcome \<times> filesystem \<times> event list" where
  "Start L r pid client fs wakes =
     (case storePid r pid fs of
        (Some err, fs1, ev1) \<Rightarrow> (Returned, fs1, [Log RunnerStarting] @ ev1 @ [ErrCh err])
      | (None, fs1, ev1) \<Rightarrow>
          (case Run r of
             (Some err, ev2) \<Rightarrow>
               (Returned, fs1, [Log RunnerStarting] @ ev1 @ [Log RunningInitial] @ ev2 @ [ErrCh err])
           | (None, ev2) \<Rightarrow>
               (case NewProcessor (config r) (once r) (dry r) client fs1 of
                  Inl ev3 \<Rightarrow>
                    (Panicked, fs1, [Log RunnerStarting] @ ev1 @ [Log RunningInitial] @ ev2 @ ev3)
                | Inr (pr, fs2, ev3) \<Rightarrow>
                    (case runner_loop L pr wakes fs2 of
                       (out, fs3, ev4) \<Rightarrow>
                         (out, fs3,
                          [Log RunnerStarting] @ ev1 @ [Log RunningInitial] @ ev2 @ ev3 @ ev4)))))"

subsection \<open>Notions used to state the properties\<close>

text \<open>A \<open>time.Duration\<close> holds a signed 64-bit number of nanoseconds.\<close>

definition is_duration :: "int \<Rightarrow> bool" where
  "is_duration d = (- (2 ^ 63) \<le> d \<and> d < 2 ^ 63)"

text \<open>
  The reference definition of the backoff policy, in the words of the specification
  and of the claim about it:
  no retry when retries are disabled or when a cap is configured (\<open>attempts\<close> not 0)
  and the attempt index has reached it; otherwise a wait of \<open>baseBackoff * 2 ^ i\<close>,
  except that with \<open>maxBackoff > 0\<close> the wait is \<open>maxBackoff\<close> once the index exceeds
  the floor of the binary logarithm of \<open>maxBackoff / baseBackoff\<close>. The product is
  the mathematical one.
\<close>

definition decide_spec :: "RetryConfig \<Rightarrow> int \<Rightarrow> bool \<times> int" where
  "decide_spec c attemptIndex =
     (let attempts = IntVal (Attempts c);
          baseBackoff = TimeDurationVal (Backoff c);
          maxBackoff = TimeDurationVal (MaxBackoff c)
      in if \<not> BoolVal (Enabled c) then (False, 0)
         else if attempts \<noteq> 0 \<and> attempts \<le> attemptIndex then (False, 0)
         else if maxBackoff > 0
               \<and> attemptIndex > \<lfloor>log 2 (real_of_int maxBackoff / real_of_int baseBackoff)\<rfloor>
           then (True, maxBackoff)
           else (True, baseBackoff * 2 ^ nat attemptIndex))"

text \<open>The local file of a listed pair: the destination directory joined with the last
  segment of the key.\<close>

definition leaf :: "KVPair \<Rightarrow> string" where
  "leaf pair = last (Split (Key pair) (CHR ''/''))"

definition target :: "lib \<Rightarrow> 'a Processor_scheme \<Rightarrow> KVPair \<Rightarrow> string" where
  "target L p pair = Join L (To (config p)) (leaf pair)"

text \<open>The test \<open>fHash != sHash\<close> of \<open>Process\<close>.\<close>

definition would_write :: "lib \<Rightarrow> filesystem \<Rightarrow> string \<Rightarrow> string \<Rightarrow> bool" where
  "would_write L fs file v = (fst (calculateFileHash L fs file) \<noteq> getHash L v)"


text \<open>When creating the file or copying the bytes into it fails.\<close>

definition write_fails :: "filesystem \<Rightarrow> string \<Rightarrow> string \<Rightarrow> bool" where
  "write_fails fs file s =
     (file \<in> dirs fs \<or> file \<in> denied fs
      \<or> (case room fs file of None \<Rightarrow> False | Some n \<Rightarrow> n < length s))"

text \<open>The determinations of a pass, read off its log in order: \<open>True\<close> for a pair that
  is saved, or would be in a dry run, \<open>False\<close> for a pair that is skipped as identical.\<close>

fun determinations :: "event list \<Rightarrow> bool list" where
  "determinations [] = []"
| "determinations (Log (Saved file) # ev) = True # determinations ev"
| "determinations (Log (WillBeCreated file s) # ev) = True # determinations ev"
| "determinations (Log (Skipping k) # ev) = False # determinations ev"
| "determinations (e # ev) = determinations ev"

text \<open>Stand-ins for the two library parameters where a closed term is needed: a
  digest of 32 bytes (the first 32 bytes of the input, padded with zeros) and the join
  of a clean directory with a plain file name.\<close>

definition stub_lib :: lib where
  "stub_lib = \<lparr>Sum256 = (\<lambda>v. take 32 (v @ replicate 32 (CHR 0x00))),
               Join = (\<lambda>dir name. dir @ ''/'' @ name)\<rparr>"

definition empty_fs :: filesystem where
  "empty_fs = \<lparr>files = Map.empty, dirs = {}, denied = {}, unreadable = {}, room = (\<lambda>name. None)\<rparr>"

text \<open>The fingerprint comparisons of the listed pairs that have a file name, all made
  against one file system.\<close>

definition comparisons :: "lib \<Rightarrow> 'a Processor_scheme \<Rightarrow> filesystem \<Rightarrow> KVPair list \<Rightarrow> bool list" where
  "comparisons L p fs keys =
     map (\<lambda>pair. would_write L fs (target L p pair) (Value pair))
       (filter (\<lambda>pair. leaf pair \<noteq> []) keys)"

subsection \<open>The retry policy (config/retry.go)\<close>

lemma finalized_Finalize: "finalized (Finalize c)"
  by (auto simp add: finalized_def Finalize_def)

lemma wrap64_id: "is_duration d \<Longrightarrow> wrap64 d = d"
  by (simp add: is_duration_def wrap64_def)

lemma pow2_small:
  assumes "0 < b" "b * 2 ^ n < (2::int) ^ 63"
  shows "n < 63"
proof (rule ccontr)
  assume "\<not> n < 63"
  then have "(2::int) ^ 63 \<le> 2 ^ n"
    by (simp only: power_increasing_iff one_less_numeral_iff semiring_norm not_less)
  moreover have "(2::int) ^ n \<le> b * 2 ^ n" using assms(1) by simp
  ultimately show False using assms(2) by linarith
qed

lemma pow2_scaled_mono:
  fixes b :: int
  assumes "0 < b" "i \<le> j"
  shows "b * 2 ^ nat i \<le> b * 2 ^ nat j"
proof -
  have "nat i \<le> nat j" using assms(2) by simp
  then have "(2::int) ^ nat i \<le> 2 ^ nat j"
    by (simp only: power_increasing_iff one_less_numeral_iff semiring_norm)
  then show ?thesis using assms(1) by (simp only: mult_le_cancel_left_pos)
qed

lemma RetryFunc_unclamped:
  assumes "0 \<le> i" "0 < b" "is_duration (b * 2 ^ nat i)"
  shows "wrap64 (pow2_duration conv i * b) = b * 2 ^ nat i"
proof -
  have "nat i < 63" using assms by (intro pow2_small [of b]) (simp_all add: is_duration_def)
  then have "i < 63" by linarith
  then have "pow2_duration conv i = 2 ^ nat i" using assms(1) by (simp add: pow2_duration_def)
  then show ?thesis using assms(3) by (simp add: wrap64_id mult.commute)
qed

lemma RetryFunc_below:
  assumes "0 < b" "is_duration m" "0 \<le> i" "b * 2 ^ nat i \<le> m"
  shows "wrap64 (pow2_duration conv i * b) = b * 2 ^ nat i"
proof -
  have "0 < b * 2 ^ nat i" using assms(1) by simp
  with assms(2,4) have "is_duration (b * 2 ^ nat i)" by (simp add: is_duration_def)
  with assms(1,3) show ?thesis by (intro RetryFunc_unclamped)
qed

text \<open>Below the floor of the logarithm of the quotient the doubled base stays within
  the maximum.\<close>

lemma floor_log2_power_le:
  fixes b m i :: int
  assumes "0 < b" "0 < m" "0 \<le> i" "i \<le> \<lfloor>log 2 (real_of_int m / real_of_int b)\<rfloor>"
  shows "b * 2 ^ nat i \<le> m"
proof -
  let ?x = "real_of_int m / real_of_int b"
  have x: "0 < ?x" using assms(1,2) by simp
  have "real_of_int i \<le> real_of_int \<lfloor>log 2 ?x\<rfloor>" using assms(4) by (simp only: of_int_le_iff)
  also have "\<dots> \<le> log 2 ?x" by (rule of_int_floor_le)
  finally have "2 powr real_of_int i \<le> ?x" using x by (simp add: le_log_iff)
  moreover have "2 powr real_of_int i = 2 ^ nat i"
  proof -
    have "real_of_int i = real (nat i)" using assms(3) by simp
    then show ?thesis by (simp only: powr_realpow zero_less_numeral)
  qed
  ultimately have "2 ^ nat i \<le> ?x" by simp
  then have "real_of_int b * 2 ^ nat i \<le> real_of_int m"
    using assms(1) by (simp add: pos_le_divide_eq mult.commute)
  then have "real_of_int (b * 2 ^ nat i) \<le> real_of_int m" by simp
  then show ?thesis by (simp only: of_int_le_iff)
qed

text \<open>Where a retry is allowed, and how long it waits.\<close>

lemma RetryFunc_allowed:
  "fst (RetryFunc lg conv c i) \<longleftrightarrow>
     BoolVal (Enabled c) \<and> \<not> (0 < IntVal (Attempts c) \<and> IntVal (Attempts c) \<le> i)"
  by (auto simp add: RetryFunc_def Let_def)

lemma RetryFunc_refused: "\<not> fst (RetryFunc lg conv c i) \<Longrightarrow> RetryFunc lg conv c i = (False, 0)"
  by (auto simp add: RetryFunc_def Let_def split: if_splits)

lemma RetryFunc_wait:
  assumes "fst (RetryFunc lg conv c i)"
  shows "snd (RetryFunc lg conv c i) =
     (if 0 < TimeDurationVal (MaxBackoff c)
         \<and> lg (TimeDurationVal (MaxBackoff c)) (TimeDurationVal (Backoff c)) < i
      then TimeDurationVal (MaxBackoff c)
      else wrap64 (pow2_duration conv i * TimeDurationVal (Backoff c)))"
  using assms by (auto simp add: RetryFunc_def Let_def split: if_splits)

text \<open>
  Claim C10. With retries enabled and a negative \<open>Attempts\<close>, \<open>RetryFunc\<close> returns
  what it returns with \<open>Attempts = 0\<close>, and it permits a retry at every attempt index:
  the cap is checked only when \<open>Attempts\<close> is strictly positive. This holds whatever
  the threshold computed in \<open>float64\<close> and the conversions of unrepresentable floats
  are.
\<close>

theorem RetryFunc_negative_attempts:
  assumes "BoolVal (Enabled c)" and "IntVal (Attempts c) < 0"
  shows "RetryFunc lg conv c retry = RetryFunc lg conv (c\<lparr>Attempts := Some 0\<rparr>) retry
         \<and> fst (RetryFunc lg conv c retry)"
  using assms by (simp add: RetryFunc_def IntVal_def Let_def)

text \<open>Claim C10 at \<open>Attempts = -3\<close>, attempt 100, the other settings at their defaults
  (where the threshold is 7).\<close>

theorem RetryFunc_negative_attempts_witness:
  "BoolVal (Enabled \<lparr>Attempts = Some (- 3), Backoff = Some 250000000, MaxBackoff = Some 60000000000, Enabled = Some True\<rparr>)
   \<and> IntVal (Attempts \<lparr>Attempts = Some (- 3), Backoff = Some 250000000, MaxBackoff = Some 60000000000, Enabled = Some True\<rparr>) < 0
   \<and> RetryFunc (lg_const 7) conv_amd64 \<lparr>Attempts = Some (- 3), Backoff = Some 250000000, MaxBackoff = Some 60000000000, Enabled = Some True\<rparr> 100
       = RetryFunc (lg_const 7) conv_amd64 \<lparr>Attempts = Some 0, Backoff = Some 250000000, MaxBackoff = Some 60000000000, Enabled = Some True\<rparr> 100
   \<and> fst (RetryFunc (lg_const 7) conv_amd64 \<lparr>Attempts = Some (- 3), Backoff = Some 250000000, MaxBackoff = Some 60000000000, Enabled = Some True\<rparr> 100)"
proof -
  let ?c = "\<lparr>Attempts = Some (- 3), Backoff = Some 250000000, MaxBackoff = Some 60000000000, Enabled = Some True\<rparr>"
  have h1: "BoolVal (Enabled ?c)" by (simp add: BoolVal_def)
  have h2: "IntVal (Attempts ?c) < 0" by (simp add: IntVal_def)
  have "?c\<lparr>Attempts := Some 0\<rparr> = \<lparr>Attempts = Some 0, Backoff = Some 250000000, MaxBackoff = Some 60000000000, Enabled = Some True\<rparr>"
    by simp
  with RetryFunc_negative_attempts [OF h1 h2, of "lg_const 7" conv_amd64 100] h1 h2 show ?thesis
    by (intro conjI) (simp_all only: conj_imp_eq_imp_imp)
qed

text \<open>
  Claim C3, amended. For a policy with a positive base backoff, a cap that is not
  negative and an attempt index \<open>i \<ge> 0\<close> (durations being 64-bit nanosecond counts):
  \<open>RetryFunc\<close> permits a retry exactly when the reference definition does. It returns
  what the reference definition returns whenever, with a clamp (\<open>MaxBackoff > 0\<close>), the
  threshold that the code computes in \<open>float64\<close> is the floor of the binary logarithm
  of \<open>MaxBackoff / Backoff\<close>, or, with no clamp (\<open>MaxBackoff = 0\<close>), the product
  \<open>Backoff * 2 ^ i\<close> fits in 64 bits. With retries enabled, attempt 0 waits exactly
  \<open>Backoff\<close> when there is no clamp or the computed threshold is not negative.
\<close>

theorem RetryFunc_decide_spec:
  assumes b: "0 < TimeDurationVal (Backoff c)" "is_duration (TimeDurationVal (Backoff c))"
    and m: "is_duration (TimeDurationVal (MaxBackoff c))"
    and a: "0 \<le> IntVal (Attempts c)"
    and i: "0 \<le> i"
  shows "fst (RetryFunc lg conv c i) = fst (decide_spec c i)
       \<and> (0 < TimeDurationVal (MaxBackoff c)
            \<and> lg (TimeDurationVal (MaxBackoff c)) (TimeDurationVal (Backoff c))
                = \<lfloor>log 2 (real_of_int (TimeDurationVal (MaxBackoff c))
                             / real_of_int (TimeDurationVal (Backoff c)))\<rfloor>
          \<or> TimeDurationVal (MaxBackoff c) \<le> 0
            \<and> is_duration (TimeDurationVal (Backoff c) * 2 ^ nat i)
          \<longrightarrow> RetryFunc lg conv c i = decide_spec c i)
       \<and> (BoolVal (Enabled c)
            \<and> (TimeDurationVal (MaxBackoff c) \<le> 0
                \<or> 0 \<le> lg (TimeDurationVal (MaxBackoff c)) (TimeDurationVal (Backoff c)))
          \<longrightarrow> RetryFunc lg conv c 0 = (True, TimeDurationVal (Backoff c)))"
proof -
  define bb where "bb = TimeDurationVal (Backoff c)"
  define mm where "mm = TimeDurationVal (MaxBackoff c)"
  define aa where "aa = IntVal (Attempts c)"
  note bm = bb_def [symmetric] mm_def [symmetric] aa_def [symmetric]
  have bpos: "0 < bb" and bdur: "is_duration bb" and mdur: "is_duration mm" and apos: "0 \<le> aa"
    using b m a by (simp_all add: bb_def mm_def aa_def)
  have allowed: "fst (decide_spec c i) \<longleftrightarrow> BoolVal (Enabled c) \<and> \<not> (0 < aa \<and> aa \<le> i)"
    using apos by (auto simp add: decide_spec_def Let_def bm)
  have 1: "fst (RetryFunc lg conv c i) = fst (decide_spec c i)"
    by (simp add: RetryFunc_allowed allowed bm)
  have wait_spec: "snd (decide_spec c i) =
      (if 0 < mm \<and> \<lfloor>log 2 (real_of_int mm / real_of_int bb)\<rfloor> < i then mm else bb * 2 ^ nat i)"
    if "fst (decide_spec c i)"
    using that by (auto simp add: decide_spec_def Let_def bm split: if_splits)
  have 2: "RetryFunc lg conv c i = decide_spec c i"
    if h: "0 < mm \<and> lg mm bb = \<lfloor>log 2 (real_of_int mm / real_of_int bb)\<rfloor>
          \<or> mm \<le> 0 \<and> is_duration (bb * 2 ^ nat i)"
  proof (cases "fst (decide_spec c i)")
    case False
    then have "decide_spec c i = (False, 0)"
      by (auto simp add: decide_spec_def Let_def split: if_splits)
    moreover from False 1 have "RetryFunc lg conv c i = (False, 0)"
      by (intro RetryFunc_refused) simp
    ultimately show ?thesis by simp
  next
    case True
    with 1 have f: "fst (RetryFunc lg conv c i)" by simp
    have "snd (RetryFunc lg conv c i) = snd (decide_spec c i)"
    proof (cases "0 < mm")
      case mpos: True
      with h have lgf: "lg mm bb = \<lfloor>log 2 (real_of_int mm / real_of_int bb)\<rfloor>" by simp
      show ?thesis
      proof (cases "lg mm bb < i")
        case True
        with mpos lgf f \<open>fst (decide_spec c i)\<close> show ?thesis
          by (simp add: RetryFunc_wait wait_spec bm)
      next
        case False
        with lgf have "i \<le> \<lfloor>log 2 (real_of_int mm / real_of_int bb)\<rfloor>" by simp
        with bpos mpos i have "bb * 2 ^ nat i \<le> mm" by (intro floor_log2_power_le)
        with bpos mdur i have "wrap64 (pow2_duration conv i * bb) = bb * 2 ^ nat i"
          by (intro RetryFunc_below)
        with False lgf f \<open>fst (decide_spec c i)\<close> show ?thesis
          by (simp add: RetryFunc_wait wait_spec bm)
      qed
    next
      case False
      with h have "is_duration (bb * 2 ^ nat i)" by simp
      with i bpos have "wrap64 (pow2_duration conv i * bb) = bb * 2 ^ nat i"
        by (intro RetryFunc_unclamped)
      with False f \<open>fst (decide_spec c i)\<close> show ?thesis
        by (simp add: RetryFunc_wait wait_spec bm)
    qed
    with 1 show ?thesis by (simp add: prod_eq_iff)
  qed
  have 3: "RetryFunc lg conv c 0 = (True, bb)"
    if "BoolVal (Enabled c)" "mm \<le> 0 \<or> 0 \<le> lg mm bb"
    using that bdur by (auto simp add: RetryFunc_def Let_def bm pow2_duration_def wrap64_id)
  from 1 2 3 show ?thesis by (simp add: bm)
qed

text \<open>
  Claim C3, amended, at the default policy, where the threshold is the floor 7 of the
  logarithm of 240: attempt 9 is clamped to one minute and attempt 0 waits the base of
  250 ms; and at a policy with no clamp and no cap, where attempt 35 waits 250 ms times
  \<open>2 ^ 35\<close>.
\<close>

theorem RetryFunc_decide_spec_witness:
  "RetryFunc (lg_const 7) conv_amd64 (Finalize DefaultRetryConfig) 9
     = decide_spec (Finalize DefaultRetryConfig) 9
   \<and> RetryFunc (lg_const 7) conv_amd64 (Finalize DefaultRetryConfig) 9 = (True, 60000000000)
   \<and> RetryFunc (lg_const 7) conv_amd64 (Finalize DefaultRetryConfig) 0 = (True, 250000000)
   \<and> RetryFunc (lg_const 0) conv_amd64
        \<lparr>Attempts = Some 0, Backoff = Some 250000000, MaxBackoff = Some 0, Enabled = Some True\<rparr> 35
      = decide_spec
        \<lparr>Attempts = Some 0, Backoff = Some 250000000, MaxBackoff = Some 0, Enabled = Some True\<rparr> 35
   \<and> decide_spec
        \<lparr>Attempts = Some 0, Backoff = Some 250000000, MaxBackoff = Some 0, Enabled = Some True\<rparr> 35
      = (True, 8589934592000000000)"
proof -
  let ?c = "Finalize DefaultRetryConfig"
  let ?u = "\<lparr>Attempts = Some 0, Backoff = Some 250000000, MaxBackoff = Some 0, Enabled = Some True\<rparr>"
  have u1: "0 < TimeDurationVal (Backoff ?u)" by (simp add: TimeDurationVal_def)
  have u2: "is_duration (TimeDurationVal (Backoff ?u))" by (simp add: TimeDurationVal_def is_duration_def)
  have u3: "is_duration (TimeDurationVal (MaxBackoff ?u))" by (simp add: TimeDurationVal_def is_duration_def)
  have u4: "0 \<le> IntVal (Attempts ?u)" by (simp add: IntVal_def)
  have u5: "(0::int) \<le> 35" by simp
  have u6: "TimeDurationVal (MaxBackoff ?u) \<le> 0
      \<and> is_duration (TimeDurationVal (Backoff ?u) * 2 ^ nat 35)"
    by (simp add: TimeDurationVal_def is_duration_def)
  have ud: "decide_spec ?u 35 = (True, 8589934592000000000)"
    by (simp add: decide_spec_def TimeDurationVal_def IntVal_def BoolVal_def)
  from RetryFunc_decide_spec [OF u1 u2 u3 u4 u5, of "lg_const 0" conv_amd64] u6
  have unclamped: "RetryFunc (lg_const 0) conv_amd64 ?u 35 = decide_spec ?u 35" by blast
  have b: "TimeDurationVal (Backoff ?c) = 250000000"
    by (simp add: Finalize_def DefaultRetryConfig_def TimeDurationVal_def DefaultRetryBackoff_def Millisecond_def)
  have m: "TimeDurationVal (MaxBackoff ?c) = 60000000000"
    by (simp add: Finalize_def DefaultRetryConfig_def TimeDurationVal_def DefaultRetryMaxBackoff_def
        Minute_def Second_def Millisecond_def)
  have e: "BoolVal (Enabled ?c)"
    by (simp add: Finalize_def DefaultRetryConfig_def BoolVal_def)
  have a: "IntVal (Attempts ?c) = 12"
    by (simp add: Finalize_def DefaultRetryConfig_def IntVal_def DefaultRetryAttempts_def)
  have fl: "\<lfloor>log 2 (240::real)\<rfloor> = 7"
  proof (rule floor_unique)
    have "(2::real) powr 7 \<le> 240" by (simp add: powr_numeral)
    then have "7 \<le> log 2 240" by (simp add: le_log_iff)
    then show "of_int 7 \<le> log 2 (240::real)" by simp
    have "(240::real) < 2 powr 8" by (simp add: powr_numeral)
    then have "log 2 240 < 8" by (simp add: log_less_iff)
    then show "log 2 (240::real) < of_int 7 + 1" by simp
  qed
  have h1: "0 < TimeDurationVal (Backoff ?c)" by (simp add: b)
  have h2: "is_duration (TimeDurationVal (Backoff ?c))" by (simp add: b is_duration_def)
  have h3: "is_duration (TimeDurationVal (MaxBackoff ?c))" by (simp add: m is_duration_def)
  have h4: "0 \<le> IntVal (Attempts ?c)" by (simp add: a)
  have h5: "(0::int) \<le> 9" by simp
  have h6: "0 < TimeDurationVal (MaxBackoff ?c)
      \<and> lg_const 7 (TimeDurationVal (MaxBackoff ?c)) (TimeDurationVal (Backoff ?c))
          = \<lfloor>log 2 (real_of_int (TimeDurationVal (MaxBackoff ?c))
                       / real_of_int (TimeDurationVal (Backoff ?c)))\<rfloor>"
    by (simp add: b m fl lg_const_def)
  have h7: "BoolVal (Enabled ?c)
      \<and> (TimeDurationVal (MaxBackoff ?c) \<le> 0
          \<or> 0 \<le> lg_const 7 (TimeDurationVal (MaxBackoff ?c)) (TimeDurationVal (Backoff ?c)))"
    by (simp add: e lg_const_def)
  from RetryFunc_decide_spec [OF h1 h2 h3 h4 h5, of "lg_const 7" conv_amd64] h6 h7
  have clamped: "RetryFunc (lg_const 7) conv_amd64 ?c 9 = decide_spec ?c 9"
    and zero: "RetryFunc (lg_const 7) conv_amd64 ?c 0 = (True, TimeDurationVal (Backoff ?c))"
    by blast+
  have d: "decide_spec ?c 9 = (True, 60000000000)"
    using fl by (simp add: decide_spec_def a b m e)
  from clamped zero d b unclamped ud show ?thesis by simp
qed

lemma unclamped_attempt_36:
  "RetryFunc lg conv
      \<lparr>Attempts = Some 0, Backoff = Some 250000000, MaxBackoff = Some 0, Enabled = Some True\<rparr> 36
     = (True, - 1266874889709551616)"
  "RetryFunc lg conv
      \<lparr>Attempts = Some 0, Backoff = Some 250000000, MaxBackoff = Some 0, Enabled = Some True\<rparr> 35
     = (True, 8589934592000000000)"
  "decide_spec
      \<lparr>Attempts = Some 0, Backoff = Some 250000000, MaxBackoff = Some 0, Enabled = Some True\<rparr> 36
     = (True, 17179869184000000000)"
  by (simp_all add: RetryFunc_def decide_spec_def BoolVal_def IntVal_def TimeDurationVal_def
      pow2_duration_def wrap64_def)

text \<open>
  Claim C3 as stated fails. With no clamp, no cap and a base of 250 ms, the reference
  definition has attempt 36 wait 250 ms times \<open>2 ^ 36\<close>, more than a 64-bit duration
  holds; the product wraps around and \<open>RetryFunc\<close> returns a negative wait. The
  threshold is not consulted here, so this does not depend on how it is computed.
\<close>

theorem RetryFunc_decide_spec_counterexample:
  "RetryFunc (lg_const 0) conv_amd64
      \<lparr>Attempts = Some 0, Backoff = Some 250000000, MaxBackoff = Some 0, Enabled = Some True\<rparr> 36
   \<noteq> decide_spec
      \<lparr>Attempts = Some 0, Backoff = Some 250000000, MaxBackoff = Some 0, Enabled = Some True\<rparr> 36"
  by (simp only: unclamped_attempt_36) simp

text \<open>
  The threshold need not be the floor of the logarithm. Whenever the computed threshold
  is 0 although the maximum is below the base (the logarithm of a quotient between one
  half and one, truncated toward zero, as for a base of 10 s and a maximum of 7 s),
  attempt 0 waits the base, which is more than the maximum.
\<close>

lemma threshold_zero_below_base:
  assumes "BoolVal (Enabled c)" and "is_duration (TimeDurationVal (Backoff c))"
    and "lg (TimeDurationVal (MaxBackoff c)) (TimeDurationVal (Backoff c)) = 0"
  shows "RetryFunc lg conv c 0 = (True, TimeDurationVal (Backoff c))"
  using assms by (auto simp add: RetryFunc_def Let_def pow2_duration_def wrap64_id)

lemma RetryFunc_wait_bounded:
  assumes "0 < b" "is_duration m" "0 < m"
    and "lg m b < 0 \<or> b * 2 ^ nat (lg m b) \<le> m"
    and "TimeDurationVal (Backoff c) = b" "TimeDurationVal (MaxBackoff c) = m"
  shows "snd (RetryFunc lg conv c k) \<le> m"
proof (cases "fst (RetryFunc lg conv c k)")
  case False
  then have "RetryFunc lg conv c k = (False, 0)" by (rule RetryFunc_refused)
  with assms(3) show ?thesis by simp
next
  case True
  show ?thesis
  proof (cases "lg m b < k")
    case lt: True
    with True assms show ?thesis by (simp add: RetryFunc_wait)
  next
    case le: False
    show ?thesis
    proof (cases "0 \<le> k")
      case False
      then have "pow2_duration conv k = 0" by (simp add: pow2_duration_def)
      with True le assms show ?thesis by (simp add: RetryFunc_wait wrap64_def)
    next
      case k: True
      with le have "0 \<le> lg m b" by simp
      with assms(4) have top: "b * 2 ^ nat (lg m b) \<le> m" by simp
      from le have "k \<le> lg m b" by simp
      with assms(1) have "b * 2 ^ nat k \<le> b * 2 ^ nat (lg m b)" by (intro pow2_scaled_mono)
      with top have km: "b * 2 ^ nat k \<le> m" by simp
      with assms(1,2) k have "wrap64 (pow2_duration conv k * b) = b * 2 ^ nat k"
        by (intro RetryFunc_below)
      with True le km assms show ?thesis by (simp add: RetryFunc_wait)
    qed
  qed
qed

text \<open>
  Claim C4, amended. For a policy with a positive base backoff and a clamp
  (\<open>MaxBackoff > 0\<close>), say that the threshold \<open>t\<close> that the code computes in \<open>float64\<close>
  does not overshoot when \<open>t < 0\<close> or \<open>Backoff * 2 ^ t \<le> MaxBackoff\<close>; the floor of
  the binary logarithm of \<open>MaxBackoff / Backoff\<close> does not overshoot. Over attempt
  indices \<open>0 \<le> i \<le> j\<close> at which a retry is allowed, the wait is non-decreasing,
  provided the threshold does not overshoot or there is no clamp and
  \<open>Backoff * 2 ^ j\<close> fits in 64 bits; and when the threshold does not overshoot, the
  wait never exceeds the maximum, at any attempt index.
\<close>

theorem RetryFunc_wait_monotone:
  assumes b: "0 < TimeDurationVal (Backoff c)"
    and m: "is_duration (TimeDurationVal (MaxBackoff c))"
  shows "(0 \<le> i \<and> i \<le> j \<and> fst (RetryFunc lg conv c j)
          \<and> (0 < TimeDurationVal (MaxBackoff c)
              \<and> (lg (TimeDurationVal (MaxBackoff c)) (TimeDurationVal (Backoff c)) < 0
                  \<or> TimeDurationVal (Backoff c)
                      * 2 ^ nat (lg (TimeDurationVal (MaxBackoff c)) (TimeDurationVal (Backoff c)))
                     \<le> TimeDurationVal (MaxBackoff c))
              \<or> TimeDurationVal (MaxBackoff c) \<le> 0
                 \<and> is_duration (TimeDurationVal (Backoff c) * 2 ^ nat j))
          \<longrightarrow> fst (RetryFunc lg conv c i)
              \<and> snd (RetryFunc lg conv c i) \<le> snd (RetryFunc lg conv c j))
       \<and> (0 < TimeDurationVal (MaxBackoff c)
           \<and> (lg (TimeDurationVal (MaxBackoff c)) (TimeDurationVal (Backoff c)) < 0
               \<or> TimeDurationVal (Backoff c)
                   * 2 ^ nat (lg (TimeDurationVal (MaxBackoff c)) (TimeDurationVal (Backoff c)))
                  \<le> TimeDurationVal (MaxBackoff c))
          \<longrightarrow> snd (RetryFunc lg conv c k) \<le> TimeDurationVal (MaxBackoff c))
       \<and> (0 < TimeDurationVal (MaxBackoff c)
           \<and> lg (TimeDurationVal (MaxBackoff c)) (TimeDurationVal (Backoff c))
               = \<lfloor>log 2 (real_of_int (TimeDurationVal (MaxBackoff c))
                            / real_of_int (TimeDurationVal (Backoff c)))\<rfloor>
          \<longrightarrow> lg (TimeDurationVal (MaxBackoff c)) (TimeDurationVal (Backoff c)) < 0
              \<or> TimeDurationVal (Backoff c)
                  * 2 ^ nat (lg (TimeDurationVal (MaxBackoff c)) (TimeDurationVal (Backoff c)))
                 \<le> TimeDurationVal (MaxBackoff c))"
proof -
  define bb where "bb = TimeDurationVal (Backoff c)"
  define mm where "mm = TimeDurationVal (MaxBackoff c)"
  note bm = bb_def [symmetric] mm_def [symmetric]
  have bpos: "0 < bb" and mdur: "is_duration mm" using b m by (simp_all add: bb_def mm_def)
  have bound: "snd (RetryFunc lg conv c k) \<le> mm"
    if "0 < mm \<and> (lg mm bb < 0 \<or> bb * 2 ^ nat (lg mm bb) \<le> mm)" for k
    using bpos mdur that bm by (intro RetryFunc_wait_bounded [of bb mm]) simp_all
  have mono: "fst (RetryFunc lg conv c i) \<and> snd (RetryFunc lg conv c i) \<le> snd (RetryFunc lg conv c j)"
    if i: "0 \<le> i" and ij: "i \<le> j" and fj: "fst (RetryFunc lg conv c j)"
      and dom: "0 < mm \<and> (lg mm bb < 0 \<or> bb * 2 ^ nat (lg mm bb) \<le> mm)
                \<or> mm \<le> 0 \<and> is_duration (bb * 2 ^ nat j)"
  proof -
    have fi: "fst (RetryFunc lg conv c i)" using fj ij by (auto simp add: RetryFunc_allowed)
    have pw: "bb * 2 ^ nat i \<le> bb * 2 ^ nat j" using bpos ij by (rule pow2_scaled_mono)
    have j0: "0 \<le> j" using i ij by simp
    have "snd (RetryFunc lg conv c i) \<le> snd (RetryFunc lg conv c j)"
    proof (cases "0 < mm")
      case mpos: True
      with dom have ok: "0 < mm \<and> (lg mm bb < 0 \<or> bb * 2 ^ nat (lg mm bb) \<le> mm)" by simp
      show ?thesis
      proof (cases "lg mm bb < j")
        case True
        with fj mpos have "snd (RetryFunc lg conv c j) = mm" by (simp add: RetryFunc_wait bm)
        with bound [OF ok, of i] show ?thesis by simp
      next
        case False
        with ij have lei: "i \<le> lg mm bb" and lej: "j \<le> lg mm bb" by simp_all
        with j0 ok have top: "bb * 2 ^ nat (lg mm bb) \<le> mm" by simp
        from bpos lej have "bb * 2 ^ nat j \<le> bb * 2 ^ nat (lg mm bb)" by (rule pow2_scaled_mono)
        with top have jm: "bb * 2 ^ nat j \<le> mm" by simp
        with pw have im: "bb * 2 ^ nat i \<le> mm" by simp
        from bpos mdur j0 jm have "wrap64 (pow2_duration conv j * bb) = bb * 2 ^ nat j"
          by (rule RetryFunc_below)
        moreover from bpos mdur i im have "wrap64 (pow2_duration conv i * bb) = bb * 2 ^ nat i"
          by (rule RetryFunc_below)
        ultimately show ?thesis using fi fj lei lej pw by (simp add: RetryFunc_wait bm)
      qed
    next
      case False
      with dom have m0: "mm \<le> 0" and dj: "is_duration (bb * 2 ^ nat j)" by simp_all
      have "0 < bb * 2 ^ nat i" using bpos by simp
      with pw dj have di: "is_duration (bb * 2 ^ nat i)" by (simp add: is_duration_def)
      from j0 bpos dj have "wrap64 (pow2_duration conv j * bb) = bb * 2 ^ nat j"
        by (rule RetryFunc_unclamped)
      moreover from i bpos di have "wrap64 (pow2_duration conv i * bb) = bb * 2 ^ nat i"
        by (rule RetryFunc_unclamped)
      ultimately show ?thesis using fi fj m0 pw by (simp add: RetryFunc_wait bm)
    qed
    with fi show ?thesis by simp
  qed
  have floor_ok: "lg mm bb < 0 \<or> bb * 2 ^ nat (lg mm bb) \<le> mm"
    if "0 < mm" "lg mm bb = \<lfloor>log 2 (real_of_int mm / real_of_int bb)\<rfloor>"
  proof (cases "lg mm bb < 0")
    case True
    then show ?thesis by simp
  next
    case False
    then have "0 \<le> lg mm bb" by simp
    moreover have "lg mm bb \<le> \<lfloor>log 2 (real_of_int mm / real_of_int bb)\<rfloor>" using that(2) by simp
    ultimately have "bb * 2 ^ nat (lg mm bb) \<le> mm" using bpos that(1)
      by (intro floor_log2_power_le)
    then show ?thesis by simp
  qed
  from mono bound floor_ok show ?thesis by (simp add: bm)
qed

text \<open>Claim C4, amended, at the default policy, where the threshold is 7 and 250 ms times
  \<open>2 ^ 7\<close> is 32 s: attempts 2 and 9, and the bound at attempt 40; and at a policy with
  no clamp and no cap: attempts 3 and 35.\<close>

theorem RetryFunc_wait_monotone_witness:
  "snd (RetryFunc (lg_const 7) conv_amd64 (Finalize DefaultRetryConfig) 2)
     \<le> snd (RetryFunc (lg_const 7) conv_amd64 (Finalize DefaultRetryConfig) 9)
   \<and> snd (RetryFunc (lg_const 7) conv_amd64 (Finalize DefaultRetryConfig) 40) \<le> 60000000000
   \<and> snd (RetryFunc (lg_const 0) conv_amd64
        \<lparr>Attempts = Some 0, Backoff = Some 250000000, MaxBackoff = Some 0, Enabled = Some True\<rparr> 3)
      \<le> snd (RetryFunc (lg_const 0) conv_amd64
        \<lparr>Attempts = Some 0, Backoff = Some 250000000, MaxBackoff = Some 0, Enabled = Some True\<rparr> 35)"
proof -
  let ?c = "Finalize DefaultRetryConfig"
  let ?u = "\<lparr>Attempts = Some 0, Backoff = Some 250000000, MaxBackoff = Some 0, Enabled = Some True\<rparr>"
  have u1: "0 < TimeDurationVal (Backoff ?u)" by (simp add: TimeDurationVal_def)
  have u2: "is_duration (TimeDurationVal (MaxBackoff ?u))" by (simp add: TimeDurationVal_def is_duration_def)
  have u3: "(0::int) \<le> 3 \<and> (3::int) \<le> 35 \<and> fst (RetryFunc (lg_const 0) conv_amd64 ?u 35)
      \<and> (0 < TimeDurationVal (MaxBackoff ?u)
          \<and> (lg_const 0 (TimeDurationVal (MaxBackoff ?u)) (TimeDurationVal (Backoff ?u)) < 0
              \<or> TimeDurationVal (Backoff ?u)
                  * 2 ^ nat (lg_const 0 (TimeDurationVal (MaxBackoff ?u)) (TimeDurationVal (Backoff ?u)))
                 \<le> TimeDurationVal (MaxBackoff ?u))
          \<or> TimeDurationVal (MaxBackoff ?u) \<le> 0
             \<and> is_duration (TimeDurationVal (Backoff ?u) * 2 ^ nat 35))"
    by (simp add: RetryFunc_allowed TimeDurationVal_def IntVal_def BoolVal_def is_duration_def)
  from RetryFunc_wait_monotone [OF u1 u2, of 3 35 "lg_const 0" conv_amd64 0] u3
  have unclamped: "snd (RetryFunc (lg_const 0) conv_amd64 ?u 3)
      \<le> snd (RetryFunc (lg_const 0) conv_amd64 ?u 35)" by blast
  have b: "TimeDurationVal (Backoff ?c) = 250000000"
    by (simp add: Finalize_def DefaultRetryConfig_def TimeDurationVal_def DefaultRetryBackoff_def Millisecond_def)
  have m: "TimeDurationVal (MaxBackoff ?c) = 60000000000"
    by (simp add: Finalize_def DefaultRetryConfig_def TimeDurationVal_def DefaultRetryMaxBackoff_def
        Minute_def Second_def Millisecond_def)
  have e: "BoolVal (Enabled ?c)"
    by (simp add: Finalize_def DefaultRetryConfig_def BoolVal_def)
  have a: "IntVal (Attempts ?c) = 12"
    by (simp add: Finalize_def DefaultRetryConfig_def IntVal_def DefaultRetryAttempts_def)
  have h1: "0 < TimeDurationVal (Backoff ?c)" by (simp add: b)
  have h2: "is_duration (TimeDurationVal (MaxBackoff ?c))" by (simp add: m is_duration_def)
  have ok: "0 < TimeDurationVal (MaxBackoff ?c)
      \<and> (lg_const 7 (TimeDurationVal (MaxBackoff ?c)) (TimeDurationVal (Backoff ?c)) < 0
          \<or> TimeDurationVal (Backoff ?c)
              * 2 ^ nat (lg_const 7 (TimeDurationVal (MaxBackoff ?c)) (TimeDurationVal (Backoff ?c)))
             \<le> TimeDurationVal (MaxBackoff ?c))"
    by (simp add: b m lg_const_def)
  have f: "(0::int) \<le> 2 \<and> (2::int) \<le> 9 \<and> fst (RetryFunc (lg_const 7) conv_amd64 ?c 9)"
    by (simp add: RetryFunc_allowed e a)
  from RetryFunc_wait_monotone [OF h1 h2, of 2 9 "lg_const 7" conv_amd64 40] f ok
  have "snd (RetryFunc (lg_const 7) conv_amd64 ?c 2) \<le> snd (RetryFunc (lg_const 7) conv_amd64 ?c 9)"
    and "snd (RetryFunc (lg_const 7) conv_amd64 ?c 40) \<le> TimeDurationVal (MaxBackoff ?c)"
    by blast+
  with m unclamped show ?thesis by simp
qed

text \<open>
  Claim C4 as stated fails. With no clamp, no cap and a base of 250 ms, a retry is
  allowed at every attempt, and attempt 35 waits longer than attempt 36, whose product
  wraps around in 64 bits. The threshold is not consulted here.
\<close>

theorem RetryFunc_wait_counterexample:
  "fst (RetryFunc (lg_const 0) conv_amd64
      \<lparr>Attempts = Some 0, Backoff = Some 250000000, MaxBackoff = Some 0, Enabled = Some True\<rparr> 35)
   \<and> fst (RetryFunc (lg_const 0) conv_amd64
      \<lparr>Attempts = Some 0, Backoff = Some 250000000, MaxBackoff = Some 0, Enabled = Some True\<rparr> 36)
   \<and> \<not> (snd (RetryFunc (lg_const 0) conv_amd64
          \<lparr>Attempts = Some 0, Backoff = Some 250000000, MaxBackoff = Some 0, Enabled = Some True\<rparr> 35)
        \<le> snd (RetryFunc (lg_const 0) conv_amd64
          \<lparr>Attempts = Some 0, Backoff = Some 250000000, MaxBackoff = Some 0, Enabled = Some True\<rparr> 36))"
  by (simp only: unclamped_attempt_36) simp

subsection \<open>The exit codes (package main)\<close>

lemma main_consts_values:
  "main_consts = [(''ExitCodeOK'', 0), (''ExitCodeError'', 11), (''ExitCodeInterrupt'', 12),
     (''ExitCodeParseFlagsError'', 13), (''ExitCodeRunnerError'', 14), (''ExitCodeConfigError'', 15)]"
  by (simp add: main_consts_def)

lemma exit_code_values:
  "ExitCodeOK = 0" "ExitCodeError = 11" "ExitCodeInterrupt = 12"
  "ExitCodeParseFlagsError = 13" "ExitCodeRunnerError = 14" "ExitCodeConfigError = 15"
  by (simp_all add: ExitCodeOK_def ExitCodeError_def ExitCodeInterrupt_def
      ExitCodeParseFlagsError_def ExitCodeRunnerError_def ExitCodeConfigError_def
      const_value_def main_consts_values)

lemma cli_loop_codes:
  "cli_loop cfg events = Some status \<Longrightarrow> status \<in> {0, 12, 14, 15} \<union> exit_hints events"
proof (induction cfg events rule: cli_loop.induct)
  case (2 cfg hint events)
  then show ?case by (cases hint) (auto simp add: exit_code_values)
next
  case (4 cfg s reload events)
  then show ?case by (auto simp add: exit_code_values split: if_splits)
qed (auto simp add: exit_code_values)

text \<open>
  Claim C1, amended. \<open>ExitCodeError\<close> is the second specification of its group, where
  \<open>iota\<close> is 1: the constants are 0 (ok), 11 (generic error), 12 (interrupted), 13
  (flag-parse error), 14 (runner error) and 15 (config error). \<open>Cli.Run\<close> maps each
  cause to its status: 0 for the help flag; 13 for any other flag-parse error; 15 when
  the configuration cannot be loaded or set up, at the start or on a reload; 0 for the
  version flag; 14 when the runner cannot be created, at the start or on a reload; and
  then, in the loop, 14 for a runner error that carries no status of its own and
  otherwise the status it carries, 0 when the runner is done or a stop is requested, 12
  for the kill signal and for every other signal that is not the reload signal; after a
  successful reload the loop goes on under the new configuration. So every status
  returned is 0, 12, 13, 14 or 15, or one that a runner error carries; 11 is never
  returned unless carried.
\<close>

theorem exit_codes_iota:
  "ExitCodeOK = 0 \<and> ExitCodeError = 11 \<and> ExitCodeInterrupt = 12
   \<and> ExitCodeParseFlagsError = 13 \<and> ExitCodeRunnerError = 14 \<and> ExitCodeConfigError = 15
   \<and> Cli_Run ParseHelp cfg events = Some 0
   \<and> Cli_Run ParseError cfg events = Some 13
   \<and> (\<not> load_ok cfg \<or> \<not> setup_ok cfg \<longrightarrow> Cli_Run (Parsed isVersion) cfg events = Some 15)
   \<and> (load_ok cfg \<and> setup_ok cfg \<longrightarrow> Cli_Run (Parsed True) cfg events = Some 0)
   \<and> (load_ok cfg \<and> setup_ok cfg \<and> \<not> runner_ok cfg \<longrightarrow>
        Cli_Run (Parsed False) cfg events = Some 14)
   \<and> (load_ok cfg \<and> setup_ok cfg \<and> runner_ok cfg \<longrightarrow>
        Cli_Run (Parsed False) cfg [] = None
        \<and> Cli_Run (Parsed False) cfg (RunnerErr None # events) = Some 14
        \<and> Cli_Run (Parsed False) cfg (RunnerErr (Some carried) # events) = Some carried
        \<and> Cli_Run (Parsed False) cfg (RunnerDone # events) = Some 0
        \<and> Cli_Run (Parsed False) cfg (StopRequested # events) = Some 0
        \<and> (s \<noteq> ReloadSignal cfg \<longrightarrow>
             Cli_Run (Parsed False) cfg (Signal s reload # events) = Some 12)
        \<and> (\<not> load_ok reload \<or> \<not> setup_ok reload \<longrightarrow>
             Cli_Run (Parsed False) cfg (Signal (ReloadSignal cfg) reload # events) = Some 15)
        \<and> (load_ok reload \<and> setup_ok reload \<and> \<not> runner_ok reload \<longrightarrow>
             Cli_Run (Parsed False) cfg (Signal (ReloadSignal cfg) reload # events) = Some 14)
        \<and> (load_ok reload \<and> setup_ok reload \<and> runner_ok reload \<longrightarrow>
             Cli_Run (Parsed False) cfg (Signal (ReloadSignal cfg) reload # events)
               = Cli_Run (Parsed False) reload events))
   \<and> (Cli_Run parsed cfg events = Some status
        \<longrightarrow> status \<in> {0, 12, 13, 14, 15} \<union> exit_hints events)"
proof -
  have bound: "status \<in> {0, 12, 13, 14, 15} \<union> exit_hints events"
    if "Cli_Run parsed cfg events = Some status"
    using that cli_loop_codes [of cfg events status]
    by (auto simp add: Cli_Run_def exit_code_values split: parse_result.splits if_splits)
  have early: "Cli_Run ParseHelp cfg events = Some 0" "Cli_Run ParseError cfg events = Some 13"
    "\<not> load_ok cfg \<or> \<not> setup_ok cfg \<longrightarrow> Cli_Run (Parsed isVersion) cfg events = Some 15"
    "load_ok cfg \<and> setup_ok cfg \<longrightarrow> Cli_Run (Parsed True) cfg events = Some 0"
    "load_ok cfg \<and> setup_ok cfg \<and> \<not> runner_ok cfg \<longrightarrow> Cli_Run (Parsed False) cfg events = Some 14"
    by (auto simp add: Cli_Run_def exit_code_values)
  have loop: "Cli_Run (Parsed False) cfg [] = None
        \<and> Cli_Run (Parsed False) cfg (RunnerErr None # events) = Some 14
        \<and> Cli_Run (Parsed False) cfg (RunnerErr (Some carried) # events) = Some carried
        \<and> Cli_Run (Parsed False) cfg (RunnerDone # events) = Some 0
        \<and> Cli_Run (Parsed False) cfg (StopRequested # events) = Some 0
        \<and> (s \<noteq> ReloadSignal cfg \<longrightarrow>
             Cli_Run (Parsed False) cfg (Signal s reload # events) = Some 12)
        \<and> (\<not> load_ok reload \<or> \<not> setup_ok reload \<longrightarrow>
             Cli_Run (Parsed False) cfg (Signal (ReloadSignal cfg) reload # events) = Some 15)
        \<and> (load_ok reload \<and> setup_ok reload \<and> \<not> runner_ok reload \<longrightarrow>
             Cli_Run (Parsed False) cfg (Signal (ReloadSignal cfg) reload # events) = Some 14)
        \<and> (load_ok reload \<and> setup_ok reload \<and> runner_ok reload \<longrightarrow>
             Cli_Run (Parsed False) cfg (Signal (ReloadSignal cfg) reload # events)
               = Cli_Run (Parsed False) reload events)"
    if "load_ok cfg \<and> setup_ok cfg \<and> runner_ok cfg"
    using that by (auto simp add: Cli_Run_def exit_code_values)
  from bound early loop show ?thesis by (simp add: exit_code_values)
qed

text \<open>
  Claim C1, amended, at runs started with the default signals (reload 1, kill 2): the
  kill signal gives 12, and so does signal 15, which is neither; a runner error that
  carries nothing gives 14; a reload whose configuration cannot be loaded gives 15, one
  whose runner cannot be created gives 14, and after a good reload the done channel
  gives 0; a flag-parse error gives 13.
\<close>

theorem exit_codes_iota_witness:
  "Cli_Run (Parsed False)
      \<lparr>load_ok = True, setup_ok = True, runner_ok = True, ReloadSignal = 1, KillSignal = 2\<rparr>
      [Signal 2 \<lparr>load_ok = True, setup_ok = True, runner_ok = True, ReloadSignal = 1, KillSignal = 2\<rparr>]
     = Some 12
   \<and> Cli_Run (Parsed False)
      \<lparr>load_ok = True, setup_ok = True, runner_ok = True, ReloadSignal = 1, KillSignal = 2\<rparr>
      [Signal 15 \<lparr>load_ok = True, setup_ok = True, runner_ok = True, ReloadSignal = 1, KillSignal = 2\<rparr>]
     = Some 12
   \<and> Cli_Run (Parsed False)
      \<lparr>load_ok = True, setup_ok = True, runner_ok = True, ReloadSignal = 1, KillSignal = 2\<rparr>
      [RunnerErr None] = Some 14
   \<and> Cli_Run (Parsed False)
      \<lparr>load_ok = True, setup_ok = True, runner_ok = True, ReloadSignal = 1, KillSignal = 2\<rparr>
      [Signal 1 \<lparr>load_ok = False, setup_ok = True, runner_ok = True, ReloadSignal = 1, KillSignal = 2\<rparr>]
     = Some 15
   \<and> Cli_Run (Parsed False)
      \<lparr>load_ok = True, setup_ok = True, runner_ok = True, ReloadSignal = 1, KillSignal = 2\<rparr>
      [Signal 1 \<lparr>load_ok = True, setup_ok = True, runner_ok = False, ReloadSignal = 1, KillSignal = 2\<rparr>]
     = Some 14
   \<and> Cli_Run (Parsed False)
      \<lparr>load_ok = True, setup_ok = True, runner_ok = True, ReloadSignal = 1, KillSignal = 2\<rparr>
      [Signal 1 \<lparr>load_ok = True, setup_ok = True, runner_ok = True, ReloadSignal = 1, KillSignal = 2\<rparr>,
       RunnerDone] = Some 0
   \<and> Cli_Run ParseError
      \<lparr>load_ok = True, setup_ok = True, runner_ok = True, ReloadSignal = 1, KillSignal = 2\<rparr> []
     = Some 13
   \<and> (12::int) \<in> {0, 12, 13, 14, 15} \<union> exit_hints
      [Signal 2 \<lparr>load_ok = True, setup_ok = True, runner_ok = True, ReloadSignal = 1, KillSignal = 2\<rparr>]"
proof -
  let ?c = "\<lparr>load_ok = True, setup_ok = True, runner_ok = True, ReloadSignal = 1, KillSignal = 2\<rparr>"
  let ?noload = "\<lparr>load_ok = False, setup_ok = True, runner_ok = True, ReloadSignal = 1, KillSignal = 2\<rparr>"
  let ?norunner = "\<lparr>load_ok = True, setup_ok = True, runner_ok = False, ReloadSignal = 1, KillSignal = 2\<rparr>"
  have ok: "load_ok ?c \<and> setup_ok ?c \<and> runner_ok ?c" by simp
  have kill: "(2::nat) \<noteq> ReloadSignal ?c" and other: "(15::nat) \<noteq> ReloadSignal ?c"
    and reload: "(1::nat) = ReloadSignal ?c" by simp_all
  have bad: "\<not> load_ok ?noload \<or> \<not> setup_ok ?noload"
    and bad': "load_ok ?norunner \<and> setup_ok ?norunner \<and> \<not> runner_ok ?norunner" by simp_all
  from exit_codes_iota [where cfg = ?c and s = 2 and reload = ?c and events = "[]"] ok kill
  have 1: "Cli_Run (Parsed False) ?c [Signal 2 ?c] = Some 12"
    and 3: "Cli_Run (Parsed False) ?c [RunnerErr None] = Some 14"
    and 7: "Cli_Run ParseError ?c [] = Some 13"
    by blast+
  from exit_codes_iota [where cfg = ?c and s = 15 and reload = ?c and events = "[]"] ok other
  have 2: "Cli_Run (Parsed False) ?c [Signal 15 ?c] = Some 12" by blast
  from exit_codes_iota [where cfg = ?c and reload = ?noload and events = "[]"] ok bad reload
  have 4: "Cli_Run (Parsed False) ?c [Signal 1 ?noload] = Some 15" by simp
  from exit_codes_iota [where cfg = ?c and reload = ?norunner and events = "[]"] ok bad' reload
  have 5: "Cli_Run (Parsed False) ?c [Signal 1 ?norunner] = Some 14" by simp
  from exit_codes_iota [where cfg = ?c and reload = ?c and events = "[RunnerDone]"] ok reload
  have "Cli_Run (Parsed False) ?c [Signal 1 ?c, RunnerDone] = Cli_Run (Parsed False) ?c [RunnerDone]"
    by simp
  moreover from exit_codes_iota [where cfg = ?c and events = "[]"] ok
  have "Cli_Run (Parsed False) ?c [RunnerDone] = Some 0" by blast
  ultimately have 6: "Cli_Run (Parsed False) ?c [Signal 1 ?c, RunnerDone] = Some 0" by simp
  from exit_codes_iota [where parsed = "Parsed False" and cfg = ?c and events = "[Signal 2 ?c]"
      and status = 12] 1
  have 8: "(12::int) \<in> {0, 12, 13, 14, 15} \<union> exit_hints [Signal 2 ?c]" by blast
  from 1 2 3 4 5 6 7 8 show ?thesis by (intro conjI)
qed

text \<open>
  Claim C1 as stated fails: the constants are not 0, 10, 11, 12, 13, 14, and a run
  interrupted by the kill signal returns 12, not 11.
\<close>

theorem exit_codes_counterexample:
  "\<not> (ExitCodeOK = 0 \<and> ExitCodeError = 10 \<and> ExitCodeInterrupt = 11
       \<and> ExitCodeParseFlagsError = 12 \<and> ExitCodeRunnerError = 13 \<and> ExitCodeConfigError = 14)
   \<and> Cli_Run (Parsed False)
      \<lparr>load_ok = True, setup_ok = True, runner_ok = True, ReloadSignal = 1, KillSignal = 2\<rparr>
      [Signal 2 \<lparr>load_ok = True, setup_ok = True, runner_ok = True, ReloadSignal = 1, KillSignal = 2\<rparr>]
     \<noteq> Some 11"
  by (simp add: Cli_Run_def exit_code_values)

subsection \<open>The processor\<close>

lemma processor_exit_codes:
  "const_value processor_consts ''ExitCodeOK'' = 0"
  "const_value processor_consts ''ExitCodeError'' = 11"
  by (simp_all add: const_value_def processor_consts_def)

lemma EncodeToString_Nil_iff: "EncodeToString s = [] \<longleftrightarrow> s = []"
  by (cases s) (simp_all add: EncodeToString_def)

lemma getHash_Nil_iff: "getHash L v = [] \<longleftrightarrow> Sum256 L v = []"
  by (simp add: getHash_def EncodeToString_Nil_iff)

lemma would_write_iff:
  assumes "Sum256 L v \<noteq> []"
  shows "would_write L fs file v \<longleftrightarrow>
     (case ReadFile fs file of Inl err \<Rightarrow> True | Inr old \<Rightarrow> getHash L old \<noteq> getHash L v)"
  using assms getHash_Nil_iff [of L v]
  by (auto simp add: would_write_def calculateFileHash_def split: sum.splits)

lemma save_dry: "dry p \<Longrightarrow> save p fs file s = (None, fs, [Log (WillBeCreated file s)])"
  by (simp add: save_def)

lemma save_ok:
  "\<not> dry p \<Longrightarrow> \<not> write_fails fs file s \<Longrightarrow>
     save p fs file s = (None, fs\<lparr>files := (files fs)(file \<mapsto> s)\<rparr>, [Log (Saved file)])"
  by (auto simp add: save_def write_fails_def Create_def WriteAll_def split: option.splits)

lemma save_fails:
  "\<not> dry p \<Longrightarrow> write_fails fs file s \<Longrightarrow> \<exists>err fs'. save p fs file s = (Some err, fs', [])"
  by (auto simp add: save_def write_fails_def Create_def WriteAll_def split: option.splits)

lemma save_error_iff:
  "(\<exists>err fs' ev. save p fs file s = (Some err, fs', ev)) \<longleftrightarrow> \<not> dry p \<and> write_fails fs file s"
proof (cases "dry p")
  case True
  then show ?thesis by (simp add: save_dry)
next
  case False
  show ?thesis
  proof (cases "write_fails fs file s")
    case True
    with False save_fails [OF False True] show ?thesis by auto
  next
    case nf: False
    with False show ?thesis by (simp add: save_ok)
  qed
qed

lemma process_pair_cases:
  "process_pair L p pair fs =
     (if leaf pair = [] then (None, fs, [])
      else if \<not> would_write L fs (target L p pair) (Value pair)
        then (None, fs, [Log (Skipping (Key pair))])
      else case save p fs (target L p pair) (Value pair) of
             (Some err, fs', ev) \<Rightarrow> (Some err, fs', ev @ [ErrCh err, Log (ProcessorErr err)])
           | (None, fs', ev) \<Rightarrow> (None, fs', ev))"
  by (simp add: process_pair_def leaf_def target_def would_write_def logError_def Let_def
      split: prod.splits option.splits)

lemma process_pair_error_iff:
  "(\<exists>err fs' ev. process_pair L p pair fs = (Some err, fs', ev)) \<longleftrightarrow>
     leaf pair \<noteq> [] \<and> would_write L fs (target L p pair) (Value pair)
     \<and> \<not> dry p \<and> write_fails fs (target L p pair) (Value pair)"
proof (cases "leaf pair \<noteq> [] \<and> would_write L fs (target L p pair) (Value pair)")
  case False
  then show ?thesis by (auto simp add: process_pair_cases)
next
  case True
  obtain r fs' ev where s: "save p fs (target L p pair) (Value pair) = (r, fs', ev)"
    by (cases "save p fs (target L p pair) (Value pair)")
  have "(r \<noteq> None) \<longleftrightarrow> \<not> dry p \<and> write_fails fs (target L p pair) (Value pair)"
    using save_error_iff [of p fs "target L p pair" "Value pair"] s by auto
  with True s show ?thesis by (cases r) (auto simp add: process_pair_cases)
qed

lemma process_pair_error_events:
  assumes "process_pair L p pair fs = (Some err, fs', ev)"
  shows "ev = [ErrCh err, Log (ProcessorErr err)]"
proof -
  from assms have w: "leaf pair \<noteq> []" "would_write L fs (target L p pair) (Value pair)"
    "\<not> dry p" "write_fails fs (target L p pair) (Value pair)"
    using process_pair_error_iff [of L p pair fs] by blast+
  from save_fails [OF w(3,4)] obtain e fs1
    where "save p fs (target L p pair) (Value pair) = (Some e, fs1, [])" by blast
  with assms w show ?thesis by (auto simp add: process_pair_cases)
qed

lemma process_pair_ok_events:
  assumes "process_pair L p pair fs = (None, fs', ev)"
  shows "ev = [] \<or> ev = [Log (Skipping (Key pair))]
       \<or> ev = [Log (Saved (target L p pair))]
       \<or> ev = [Log (WillBeCreated (target L p pair) (Value pair))]"
proof (cases "dry p")
  case True
  with assms show ?thesis by (auto simp add: process_pair_cases save_dry split: if_splits)
next
  case False
  show ?thesis
  proof (cases "write_fails fs (target L p pair) (Value pair)")
    case True
    from save_fails [OF False True] obtain e fs1
      where "save p fs (target L p pair) (Value pair) = (Some e, fs1, [])" by blast
    with assms show ?thesis by (auto simp add: process_pair_cases split: if_splits)
  next
    case nf: False
    with False assms show ?thesis by (auto simp add: process_pair_cases save_ok split: if_splits)
  qed
qed


lemma process_pairs_error_iff:
  "(\<exists>fs' ev. process_pairs L p keys fs = (Some err, fs', ev)) \<longleftrightarrow>
     (\<exists>pre pair post fs1 ev1 fs2 ev2. keys = pre @ pair # post
        \<and> process_pairs L p pre fs = (None, fs1, ev1)
        \<and> process_pair L p pair fs1 = (Some err, fs2, ev2))"
proof (induction keys arbitrary: fs)
  case Nil
  then show ?case by simp
next
  case (Cons k keys)
  obtain r fs' ev where pk: "process_pair L p k fs = (r, fs', ev)"
    by (cases "process_pair L p k fs")
  show ?case
  proof (cases r)
    case (Some e)
    show ?thesis
    proof
      assume "\<exists>fs' ev. process_pairs L p (k # keys) fs = (Some err, fs', ev)"
      with pk Some have "e = err" by simp
      with pk Some have "k # keys = [] @ k # keys \<and> process_pairs L p [] fs = (None, fs, [])
          \<and> process_pair L p k fs = (Some err, fs', ev)" by simp
      then show "\<exists>pre pair post fs1 ev1 fs2 ev2. k # keys = pre @ pair # post
          \<and> process_pairs L p pre fs = (None, fs1, ev1)
          \<and> process_pair L p pair fs1 = (Some err, fs2, ev2)" by blast
    next
      assume "\<exists>pre pair post fs1 ev1 fs2 ev2. k # keys = pre @ pair # post
          \<and> process_pairs L p pre fs = (None, fs1, ev1)
          \<and> process_pair L p pair fs1 = (Some err, fs2, ev2)"
      then obtain pre pair post fs1 ev1 fs2 ev2 where
        *: "k # keys = pre @ pair # post" "process_pairs L p pre fs = (None, fs1, ev1)"
           "process_pair L p pair fs1 = (Some err, fs2, ev2)" by blast
      have "pre = []"
      proof (cases pre)
        case Nil then show ?thesis .
      next
        case (Cons a pre')
        with *(1) have "a = k" by simp
        with Cons *(2) pk Some show ?thesis by simp
      qed
      with * pk Some show "\<exists>fs' ev. process_pairs L p (k # keys) fs = (Some err, fs', ev)"
        by simp
    qed
  next
    case None
    have "(\<exists>fs'' ev''. process_pairs L p (k # keys) fs = (Some err, fs'', ev''))
        \<longleftrightarrow> (\<exists>fs'' ev''. process_pairs L p keys fs' = (Some err, fs'', ev''))"
      using pk None by (auto split: prod.splits)
    also have "\<dots> \<longleftrightarrow> (\<exists>pre pair post fs1 ev1 fs2 ev2. keys = pre @ pair # post
        \<and> process_pairs L p pre fs' = (None, fs1, ev1)
        \<and> process_pair L p pair fs1 = (Some err, fs2, ev2))"
      by (rule Cons.IH)
    also have "\<dots> \<longleftrightarrow> (\<exists>pre pair post fs1 ev1 fs2 ev2. k # keys = pre @ pair # post
        \<and> process_pairs L p pre fs = (None, fs1, ev1)
        \<and> process_pair L p pair fs1 = (Some err, fs2, ev2))"
    proof
      assume "\<exists>pre pair post fs1 ev1 fs2 ev2. keys = pre @ pair # post
        \<and> process_pairs L p pre fs' = (None, fs1, ev1)
        \<and> process_pair L p pair fs1 = (Some err, fs2, ev2)"
      then obtain pre pair post fs1 ev1 fs2 ev2 where
        *: "keys = pre @ pair # post" "process_pairs L p pre fs' = (None, fs1, ev1)"
           "process_pair L p pair fs1 = (Some err, fs2, ev2)" by blast
      then have "k # keys = (k # pre) @ pair # post
          \<and> process_pairs L p (k # pre) fs = (None, fs1, ev @ ev1)
          \<and> process_pair L p pair fs1 = (Some err, fs2, ev2)"
        using pk None by simp
      then show "\<exists>pre pair post fs1 ev1 fs2 ev2. k # keys = pre @ pair # post
        \<and> process_pairs L p pre fs = (None, fs1, ev1)
        \<and> process_pair L p pair fs1 = (Some err, fs2, ev2)" by blast
    next
      assume "\<exists>pre pair post fs1 ev1 fs2 ev2. k # keys = pre @ pair # post
        \<and> process_pairs L p pre fs = (None, fs1, ev1)
        \<and> process_pair L p pair fs1 = (Some err, fs2, ev2)"
      then obtain pre pair post fs1 ev1 fs2 ev2 where
        *: "k # keys = pre @ pair # post" "process_pairs L p pre fs = (None, fs1, ev1)"
           "process_pair L p pair fs1 = (Some err, fs2, ev2)" by blast
      show "\<exists>pre pair post fs1 ev1 fs2 ev2. keys = pre @ pair # post
        \<and> process_pairs L p pre fs' = (None, fs1, ev1)
        \<and> process_pair L p pair fs1 = (Some err, fs2, ev2)"
      proof (cases pre)
        case Nil
        with * pk None show ?thesis by simp
      next
        case (Cons a pre')
        with *(1) have ak: "a = k" and keys: "keys = pre' @ pair # post" by simp_all
        from *(2) Cons ak pk None obtain ev1' where "process_pairs L p pre' fs' = (None, fs1, ev1')"
          by (auto split: prod.splits)
        with keys *(3) show ?thesis by blast
      qed
    qed
    finally show ?thesis .
  qed
qed

lemma process_pair_events_set:
  assumes "process_pair L p pair fs = (r, fs', ev)"
  shows "(\<forall>b. DoneCh b \<notin> set ev) \<and> (\<forall>e. ErrCh e \<in> set ev \<longleftrightarrow> r = Some e)"
proof (cases r)
  case None
  with assms process_pair_ok_events [of L p pair fs fs' ev] show ?thesis by auto
next
  case (Some err)
  with assms process_pair_error_events [of L p pair fs err fs' ev] show ?thesis by auto
qed

lemma process_pairs_events_set:
  "process_pairs L p keys fs = (r, fs', ev) \<Longrightarrow>
     (\<forall>b. DoneCh b \<notin> set ev) \<and> (\<forall>e. ErrCh e \<in> set ev \<longleftrightarrow> r = Some e)"
proof (induction keys arbitrary: fs r fs' ev)
  case Nil
  then show ?case by auto
next
  case (Cons k keys)
  obtain r1 fs1 ev1 where pk: "process_pair L p k fs = (r1, fs1, ev1)"
    by (cases "process_pair L p k fs")
  note e1 = process_pair_events_set [OF pk]
  show ?case
  proof (cases r1)
    case (Some err)
    with pk Cons.prems have "r = Some err" "ev = ev1" by simp_all
    with e1 Some show ?thesis by simp
  next
    case None
    obtain r2 fs2 ev2 where ps: "process_pairs L p keys fs1 = (r2, fs2, ev2)"
      by (cases "process_pairs L p keys fs1")
    with pk None Cons.prems have "r = r2" "ev = ev1 @ ev2" by simp_all
    with e1 None Cons.IH [OF ps] show ?thesis by auto
  qed
qed

lemma process_pairs_error_suffix:
  "process_pairs L p keys fs = (Some err, fs', ev) \<Longrightarrow>
     \<exists>ev0. ev = ev0 @ [ErrCh err, Log (ProcessorErr err)]"
proof (induction keys arbitrary: fs fs' ev)
  case Nil
  then show ?case by simp
next
  case (Cons k keys)
  obtain r1 fs1 ev1 where pk: "process_pair L p k fs = (r1, fs1, ev1)"
    by (cases "process_pair L p k fs")
  show ?case
  proof (cases r1)
    case (Some e)
    with pk Cons.prems have "e = err" "ev = ev1" by simp_all
    with pk Some process_pair_error_events [of L p k fs err fs1 ev1] show ?thesis by simp
  next
    case None
    obtain r2 fs2 ev2 where ps: "process_pairs L p keys fs1 = (r2, fs2, ev2)"
      by (cases "process_pairs L p keys fs1")
    with pk None Cons.prems have "r2 = Some err" "ev = ev1 @ ev2" "fs2 = fs'" by simp_all
    with Cons.IH [of fs1 fs2 ev2] ps show ?thesis by auto
  qed
qed

lemma Process_listing_error:
  "kv (From (config p)) = Inl err \<Longrightarrow>
     Process L p kv fs = (11, fs, [ErrCh err, Log (ProcessorErr err)])"
  by (simp add: Process_def logError_def processor_exit_codes)

lemma Process_listed:
  assumes "kv (From (config p)) = Inr keys" and "process_pairs L p keys fs = (r, fs', ev)"
  shows "Process L p kv fs =
     (case r of
        Some err \<Rightarrow>
          (11, fs', Log (if keys = [] then PathEmpty (From (config p))
                         else ConsulPath (From (config p))) # ev)
      | None \<Rightarrow>
          (0, fs', Log (if keys = [] then PathEmpty (From (config p))
                        else ConsulPath (From (config p))) # ev
                   @ (if once p \<or> dry p then [DoneCh True] else [])))"
  using assms by (simp add: Process_def logError_def processor_exit_codes Let_def split: option.splits)

text \<open>
  Claim C7. A pass sends on the done channel if and only if the processor is in run-once
  or dry-run mode and the pass forwarded no error, whatever was written; the value is
  sent once, as the last thing the pass does, and the pass forwards an error exactly when
  it returns the error status.
\<close>

theorem Process_done_iff:
  assumes "Process L p kv fs = (status, fs', ev)"
  shows "(DoneCh True \<in> set ev \<longleftrightarrow> (once p \<or> dry p) \<and> \<not> (\<exists>err. ErrCh err \<in> set ev))
       \<and> ((\<exists>err. ErrCh err \<in> set ev) \<longleftrightarrow> status \<noteq> 0)
       \<and> (DoneCh True \<in> set ev \<longrightarrow> last ev = DoneCh True \<and> count_list ev (DoneCh True) = 1)"
proof (cases "kv (From (config p))")
  case (Inl err)
  with assms show ?thesis by (auto simp add: Process_listing_error)
next
  case (Inr keys)
  obtain r fs1 ev1 where ps: "process_pairs L p keys fs = (r, fs1, ev1)"
    by (cases "process_pairs L p keys fs")
  note es = process_pairs_events_set [OF ps]
  from es have nd: "count_list ev1 (DoneCh True) = 0" by (simp add: count_list_0_iff)
  show ?thesis
  proof (cases r)
    case (Some err)
    with assms Process_listed [where kv = kv, OF Inr ps] es show ?thesis by auto
  next
    case None
    with assms Process_listed [where kv = kv, OF Inr ps] es nd show ?thesis by auto
  qed
qed

text \<open>Claim C7 at a run-once pass over an empty listing: nothing is written and the
  done value is sent.\<close>

theorem Process_done_iff_witness:
  "Process stub_lib \<lparr>config = \<lparr>From = ''app/keys'', To = ''out'', PidFile = None\<rparr>, once = True, dry = False\<rparr>
      (\<lambda>prefix. Inr []) empty_fs
     = (0, empty_fs, [Log (PathEmpty ''app/keys''), DoneCh True])
   \<and> DoneCh True \<in> set [Log (PathEmpty ''app/keys''), DoneCh True]
   \<and> last [Log (PathEmpty ''app/keys''), DoneCh True] = DoneCh True"
proof -
  let ?p = "\<lparr>config = \<lparr>From = ''app/keys'', To = ''out'', PidFile = None\<rparr>, once = True, dry = False\<rparr>"
  have run: "Process stub_lib ?p (\<lambda>prefix. Inr []) empty_fs
      = (0, empty_fs, [Log (PathEmpty ''app/keys''), DoneCh True])"
    by (simp add: Process_def processor_exit_codes)
  from Process_done_iff [OF run] run show ?thesis by simp
qed

lemma read_failure_would_write:
  assumes "ReadFile fs file = Inl err" and "Sum256 L v \<noteq> []"
  shows "calculateFileHash L fs file = ([], Some err)" and "would_write L fs file v"
  using assms by (simp_all add: calculateFileHash_def would_write_iff)

text \<open>
  Claim C6. A pass forwards an error on the error channel if and only if the listing
  fails or the write of a pair that the loop reaches fails (the pair has a file name,
  its fingerprint differs, and the processor is not in dry-run mode). The error is then
  the last thing sent, followed only by its log line: the pass returns the error status
  and sends nothing on the done channel. An empty listing is a successful pass that
  leaves the file system as it is and logs the warning. A local file that cannot be read
  has the empty fingerprint, and the pair is taken as differing.
\<close>

theorem Process_error_iff:
  assumes "Process L p kv fs = (status, fs', ev)"
  shows "((\<exists>err. ErrCh err \<in> set ev) \<longleftrightarrow>
            (\<exists>err. kv (From (config p)) = Inl err)
            \<or> (\<exists>keys pre pair post fs1 ev1.
                 kv (From (config p)) = Inr keys \<and> keys = pre @ pair # post
                 \<and> process_pairs L p pre fs = (None, fs1, ev1)
                 \<and> leaf pair \<noteq> [] \<and> would_write L fs1 (target L p pair) (Value pair)
                 \<and> \<not> dry p \<and> write_fails fs1 (target L p pair) (Value pair)))
       \<and> (\<forall>err. ErrCh err \<in> set ev \<longrightarrow>
             status = 11 \<and> (\<exists>ev0. ev = ev0 @ [ErrCh err, Log (ProcessorErr err)])
             \<and> (\<forall>b. DoneCh b \<notin> set ev))
       \<and> (kv (From (config p)) = Inr [] \<longrightarrow>
             status = 0 \<and> fs' = fs
             \<and> ev = Log (PathEmpty (From (config p))) # (if once p \<or> dry p then [DoneCh True] else []))
       \<and> (\<forall>file v err. ReadFile fs file = Inl err \<and> Sum256 L v \<noteq> [] \<longrightarrow>
             calculateFileHash L fs file = ([], Some err) \<and> would_write L fs file v)"
proof -
  have reads: "\<forall>file v err. ReadFile fs file = Inl err \<and> Sum256 L v \<noteq> [] \<longrightarrow>
      calculateFileHash L fs file = ([], Some err) \<and> would_write L fs file v"
    using read_failure_would_write by blast
  show ?thesis
  proof (cases "kv (From (config p))")
    case (Inl err)
    with assms have "status = 11" "ev = [ErrCh err, Log (ProcessorErr err)]"
      by (simp_all add: Process_listing_error)
    with Inl reads show ?thesis by auto
  next
    case (Inr keys)
    obtain r fs1 ev1 where ps: "process_pairs L p keys fs = (r, fs1, ev1)"
      by (cases "process_pairs L p keys fs")
    note es = process_pairs_events_set [OF ps]
    have fail_iff: "(\<exists>err. r = Some err) \<longleftrightarrow>
        (\<exists>pre pair post fs1 ev1. keys = pre @ pair # post
           \<and> process_pairs L p pre fs = (None, fs1, ev1)
           \<and> leaf pair \<noteq> [] \<and> would_write L fs1 (target L p pair) (Value pair)
           \<and> \<not> dry p \<and> write_fails fs1 (target L p pair) (Value pair))"
    proof
      assume "\<exists>err. r = Some err"
      then obtain err where "r = Some err" by blast
      with ps have "\<exists>fs' ev. process_pairs L p keys fs = (Some err, fs', ev)" by simp
      then obtain pre pair post fa eva fb evb where
        *: "keys = pre @ pair # post" "process_pairs L p pre fs = (None, fa, eva)"
           "process_pair L p pair fa = (Some err, fb, evb)"
        unfolding process_pairs_error_iff by blast
      from *(3) have "leaf pair \<noteq> [] \<and> would_write L fa (target L p pair) (Value pair)
          \<and> \<not> dry p \<and> write_fails fa (target L p pair) (Value pair)"
        using process_pair_error_iff [of L p pair fa] by blast
      with *(1,2) show "\<exists>pre pair post fs1 ev1. keys = pre @ pair # post
           \<and> process_pairs L p pre fs = (None, fs1, ev1)
           \<and> leaf pair \<noteq> [] \<and> would_write L fs1 (target L p pair) (Value pair)
           \<and> \<not> dry p \<and> write_fails fs1 (target L p pair) (Value pair)" by blast
    next
      assume "\<exists>pre pair post fs1 ev1. keys = pre @ pair # post
           \<and> process_pairs L p pre fs = (None, fs1, ev1)
           \<and> leaf pair \<noteq> [] \<and> would_write L fs1 (target L p pair) (Value pair)
           \<and> \<not> dry p \<and> write_fails fs1 (target L p pair) (Value pair)"
      then obtain pre pair post fa eva where
        *: "keys = pre @ pair # post" "process_pairs L p pre fs = (None, fa, eva)"
           "leaf pair \<noteq> [] \<and> would_write L fa (target L p pair) (Value pair)
            \<and> \<not> dry p \<and> write_fails fa (target L p pair) (Value pair)" by blast
      from *(3) obtain err fb evb where "process_pair L p pair fa = (Some err, fb, evb)"
        using process_pair_error_iff [of L p pair fa] by blast
      with *(1,2) have "\<exists>fs' ev. process_pairs L p keys fs = (Some err, fs', ev)"
        unfolding process_pairs_error_iff by blast
      with ps show "\<exists>err. r = Some err" by auto
    qed
    have first: "(\<exists>err. ErrCh err \<in> set ev) \<longleftrightarrow> (\<exists>err. r = Some err)"
      using assms Process_listed [where kv = kv, OF Inr ps] es by (cases r) auto
    have second: "\<forall>err. ErrCh err \<in> set ev \<longrightarrow>
             status = 11 \<and> (\<exists>ev0. ev = ev0 @ [ErrCh err, Log (ProcessorErr err)])
             \<and> (\<forall>b. DoneCh b \<notin> set ev)"
    proof (cases r)
      case None
      with assms Process_listed [where kv = kv, OF Inr ps] es show ?thesis by auto
    next
      case (Some e)
      from ps Some process_pairs_error_suffix [of L p keys fs e fs1 ev1]
      obtain ev0 where ev0: "ev1 = ev0 @ [ErrCh e, Log (ProcessorErr e)]" by auto
      from assms Process_listed [where kv = kv, OF Inr ps] Some
      have st: "status = 11" and ev: "ev = Log (if keys = [] then PathEmpty (From (config p))
                         else ConsulPath (From (config p))) # ev1" by simp_all
      have "\<exists>ev0'. ev = ev0' @ [ErrCh e, Log (ProcessorErr e)]"
        unfolding ev ev0 by (metis append_Cons)
      moreover have "\<forall>err. ErrCh err \<in> set ev \<longrightarrow> err = e" using es Some ev by auto
      moreover have "\<forall>b. DoneCh b \<notin> set ev" using es ev by auto
      ultimately show ?thesis using st by blast
    qed
    have third: "kv (From (config p)) = Inr [] \<longrightarrow>
             status = 0 \<and> fs' = fs
             \<and> ev = Log (PathEmpty (From (config p))) # (if once p \<or> dry p then [DoneCh True] else [])"
      using assms by (auto simp add: Process_def processor_exit_codes)
    have "(\<exists>err. ErrCh err \<in> set ev) \<longleftrightarrow>
            (\<exists>err. kv (From (config p)) = Inl err)
            \<or> (\<exists>keys pre pair post fs1 ev1.
                 kv (From (config p)) = Inr keys \<and> keys = pre @ pair # post
                 \<and> process_pairs L p pre fs = (None, fs1, ev1)
                 \<and> leaf pair \<noteq> [] \<and> would_write L fs1 (target L p pair) (Value pair)
                 \<and> \<not> dry p \<and> write_fails fs1 (target L p pair) (Value pair))"
      using first fail_iff Inr by simp
    with second third reads show ?thesis by blast
  qed
qed

text \<open>
  Claim C6 at a pass that lists one pair whose local file does not exist and whose
  target is a directory: the read failure is no error, the write fails, and the pass
  forwards that error and returns the error status; and at a pass over an empty listing,
  which logs the warning and succeeds.
\<close>

theorem Process_error_iff_witness:
  "Process stub_lib \<lparr>config = \<lparr>From = ''app'', To = ''out'', PidFile = None\<rparr>, once = True, dry = False\<rparr>
      (\<lambda>prefix. Inr [\<lparr>Key = ''app/a'', Value = ''1''\<rparr>]) (empty_fs\<lparr>dirs := {''out'', ''out/a''}\<rparr>)
     = (11, empty_fs\<lparr>dirs := {''out'', ''out/a''}\<rparr>,
        [Log (ConsulPath ''app''), ErrCh (Error ''open out/a: is a directory''),
         Log (ProcessorErr (Error ''open out/a: is a directory''))])
   \<and> (\<exists>ev0. [Log (ConsulPath ''app''), ErrCh (Error ''open out/a: is a directory''),
         Log (ProcessorErr (Error ''open out/a: is a directory''))]
        = ev0 @ [ErrCh (Error ''open out/a: is a directory''),
                 Log (ProcessorErr (Error ''open out/a: is a directory''))])
   \<and> Process stub_lib \<lparr>config = \<lparr>From = ''app'', To = ''out'', PidFile = None\<rparr>, once = False, dry = False\<rparr>
      (\<lambda>prefix. Inr []) (empty_fs\<lparr>dirs := {''out''}\<rparr>)
     = (0, empty_fs\<lparr>dirs := {''out''}\<rparr>, [Log (PathEmpty ''app'')])"
proof -
  let ?q = "\<lparr>config = \<lparr>From = ''app'', To = ''out'', PidFile = None\<rparr>, once = False, dry = False\<rparr>"
  obtain st fs' ev where res: "Process stub_lib ?q (\<lambda>prefix. Inr []) (empty_fs\<lparr>dirs := {''out''}\<rparr>)
      = (st, fs', ev)"
    by (cases "Process stub_lib ?q (\<lambda>prefix. Inr []) (empty_fs\<lparr>dirs := {''out''}\<rparr>)")
  from Process_error_iff [OF res] have "st = 0 \<and> fs' = empty_fs\<lparr>dirs := {''out''}\<rparr>
      \<and> ev = [Log (PathEmpty ''app'')]" by simp
  with res have empty: "Process stub_lib ?q (\<lambda>prefix. Inr []) (empty_fs\<lparr>dirs := {''out''}\<rparr>)
     = (0, empty_fs\<lparr>dirs := {''out''}\<rparr>, [Log (PathEmpty ''app'')])" by simp
  let ?p = "\<lparr>config = \<lparr>From = ''app'', To = ''out'', PidFile = None\<rparr>, once = True, dry = False\<rparr>"
  let ?fs = "empty_fs\<lparr>dirs := {''out'', ''out/a''}\<rparr>"
  let ?e = "Error ''open out/a: is a directory''"
  have s: "Sum256 stub_lib ''1'' \<noteq> []" by (simp add: stub_lib_def)
  have r: "ReadFile ?fs ''out/a'' = Inl (Error ''open out/a: no such file or directory'')"
    by (simp add: ReadFile_def empty_fs_def)
  have l: "leaf \<lparr>Key = ''app/a'', Value = ''1''\<rparr> = ''a''" by (simp add: leaf_def)
  have t: "target stub_lib ?p \<lparr>Key = ''app/a'', Value = ''1''\<rparr> = ''out/a''"
    by (simp add: target_def l stub_lib_def)
  have w: "would_write stub_lib ?fs ''out/a'' ''1''"
    using read_failure_would_write(2) [OF r s] .
  have sv: "save ?p ?fs ''out/a'' ''1'' = (Some ?e, ?fs, [])"
    by (simp add: save_def Create_def empty_fs_def)
  have pp: "process_pair stub_lib ?p \<lparr>Key = ''app/a'', Value = ''1''\<rparr> ?fs
      = (Some ?e, ?fs, [ErrCh ?e, Log (ProcessorErr ?e)])"
    by (simp add: process_pair_cases l t w sv)
  have run: "Process stub_lib ?p (\<lambda>prefix. Inr [\<lparr>Key = ''app/a'', Value = ''1''\<rparr>]) ?fs
      = (11, ?fs, [Log (ConsulPath ''app''), ErrCh ?e, Log (ProcessorErr ?e)])"
    by (simp add: Process_def pp logError_def processor_exit_codes)
  from Process_error_iff [OF run] run empty show ?thesis by simp
qed

lemma process_pair_written:
  assumes "Sum256 L (Value pair) \<noteq> []" and "leaf pair \<noteq> []" and "\<not> dry p"
    and "\<not> write_fails fs (target L p pair) (Value pair)"
  shows "process_pair L p pair fs =
     (if (case ReadFile fs (target L p pair) of
            Inl err \<Rightarrow> True
          | Inr old \<Rightarrow> getHash L old \<noteq> getHash L (Value pair))
      then (None, fs\<lparr>files := (files fs)(target L p pair \<mapsto> Value pair)\<rparr>,
            [Log (Saved (target L p pair))])
      else (None, fs, [Log (Skipping (Key pair))]))"
  using assms by (simp add: process_pair_cases would_write_iff save_ok)






subsection \<open>Dry runs\<close>

lemma determinations_append:
  "determinations (xs @ ys) = determinations xs @ determinations ys"
  by (induction xs rule: determinations.induct) simp_all

lemma would_write_same_file:
  assumes "files fs1 file = files fs file" and "unreadable fs1 = unreadable fs"
  shows "would_write L fs1 file v = would_write L fs file v"
proof -
  have "ReadFile fs1 file = ReadFile fs file"
    unfolding ReadFile_def assms ..
  then show ?thesis by (simp add: would_write_def calculateFileHash_def)
qed

lemma write_fails_same:
  assumes "dirs fs1 = dirs fs" and "denied fs1 = denied fs" and "room fs1 = room fs"
  shows "write_fails fs1 file s = write_fails fs file s"
  using assms by (simp add: write_fails_def)

lemma process_pairs_dry:
  assumes "dry p"
  shows "\<exists>ev. process_pairs L p keys fs = (None, fs, ev)
            \<and> determinations ev = comparisons L p fs keys"
proof (induction keys)
  case Nil
  then show ?case by (simp add: comparisons_def)
next
  case (Cons k keys)
  then obtain ev where ih: "process_pairs L p keys fs = (None, fs, ev)"
    "determinations ev = comparisons L p fs keys" by blast
  show ?case
  proof (cases "leaf k = []")
    case True
    with ih show ?thesis by (simp add: process_pair_cases comparisons_def)
  next
    case False
    with ih assms show ?thesis
      by (simp add: process_pair_cases comparisons_def save_dry)
  qed
qed

lemma process_pairs_nondry:
  assumes "\<not> dry q"
    and "distinct (map (target L q) (filter (\<lambda>pair. leaf pair \<noteq> []) keys))"
    and "process_pairs L q keys fs = (None, fs', ev)"
  shows "determinations ev = comparisons L q fs keys
       \<and> dirs fs' = dirs fs \<and> denied fs' = denied fs
       \<and> unreadable fs' = unreadable fs \<and> room fs' = room fs
       \<and> (\<forall>t. t \<notin> set (map (target L q) (filter (\<lambda>pair. leaf pair \<noteq> []) keys))
             \<longrightarrow> files fs' t = files fs t)"
  using assms(2,3)
proof (induction keys arbitrary: fs ev)
  case Nil
  then show ?case by (simp add: comparisons_def)
next
  case (Cons k keys)
  obtain r1 fs1 ev1 where pk0: "process_pair L q k fs = (r1, fs1, ev1)"
    by (cases "process_pair L q k fs")
  obtain r2 fs2 ev2 where ps0: "process_pairs L q keys fs1 = (r2, fs2, ev2)"
    by (cases "process_pairs L q keys fs1")
  from Cons.prems(2) pk0 ps0 have r1: "r1 = None" and r2: "r2 = None"
    and fs2: "fs2 = fs'" and ev: "ev = ev1 @ ev2"
    by (cases r1; simp)+
  from pk0 r1 have pk: "process_pair L q k fs = (None, fs1, ev1)" by simp
  from ps0 r2 fs2 have ps: "process_pairs L q keys fs1 = (None, fs', ev2)" by simp
  show ?case
  proof (cases "leaf k = []")
    case True
    with pk have same: "fs1 = fs" "ev1 = []" by (simp_all add: process_pair_cases)
    from Cons.prems(1) True
    have "distinct (map (target L q) (filter (\<lambda>pair. leaf pair \<noteq> []) keys))" by simp
    from Cons.IH [OF this ps] same ev True show ?thesis
      by (simp add: comparisons_def)
  next
    case False
    let ?t = "target L q k"
    from Cons.prems(1) False
    have dist: "distinct (map (target L q) (filter (\<lambda>pair. leaf pair \<noteq> []) keys))"
      and fresh: "?t \<notin> set (map (target L q) (filter (\<lambda>pair. leaf pair \<noteq> []) keys))"
      by auto
    have nf: "\<not> write_fails fs ?t (Value k)" if "would_write L fs ?t (Value k)"
      using process_pair_error_iff [of L q k fs] pk False assms(1) that by auto
    have frame: "dirs fs1 = dirs fs" "denied fs1 = denied fs" "unreadable fs1 = unreadable fs"
        "room fs1 = room fs" "\<forall>t. t \<noteq> ?t \<longrightarrow> files fs1 t = files fs t"
      and det: "determinations ev1 = [would_write L fs ?t (Value k)]"
      using pk False assms(1) nf by (cases "would_write L fs ?t (Value k)";
        auto simp add: process_pair_cases save_ok)+
    from Cons.IH [OF dist ps]
    have d2: "determinations ev2 = comparisons L q fs1 keys"
      and f2: "dirs fs' = dirs fs1" "denied fs' = denied fs1" "unreadable fs' = unreadable fs1"
        "room fs' = room fs1"
        "\<forall>t. t \<notin> set (map (target L q) (filter (\<lambda>pair. leaf pair \<noteq> []) keys)) \<longrightarrow> files fs' t = files fs1 t"
      by blast+
    have same: "comparisons L q fs1 keys = comparisons L q fs keys"
      unfolding comparisons_def
    proof (rule map_cong [OF refl])
      fix pair assume "pair \<in> set (filter (\<lambda>pair. leaf pair \<noteq> []) keys)"
      then have "target L q pair \<in> set (map (target L q) (filter (\<lambda>pair. leaf pair \<noteq> []) keys))"
        by (simp only: set_map image_eqI)
      with fresh have "target L q pair \<noteq> ?t" by auto
      with frame show "would_write L fs1 (target L q pair) (Value pair)
          = would_write L fs (target L q pair) (Value pair)"
        by (intro would_write_same_file) simp_all
    qed
    have "determinations (ev1 @ ev2) = comparisons L q fs (k # keys)"
      using det d2 same False by (simp add: determinations_append comparisons_def)
    moreover have "\<forall>t. t \<notin> set (map (target L q) (filter (\<lambda>pair. leaf pair \<noteq> []) (k # keys)))
        \<longrightarrow> files fs' t = files fs t"
      using f2(5) frame(5) False by auto
    ultimately show ?thesis using f2 frame ev by auto
  qed
qed

lemma Process_no_error:
  assumes "kv (From (config p)) = Inr keys"
    and "\<forall>err. ErrCh err \<notin> set (snd (snd (Process L p kv fs)))"
  shows "\<exists>fs' ev. process_pairs L p keys fs = (None, fs', ev)"
proof -
  obtain r fs' ev where ps: "process_pairs L p keys fs = (r, fs', ev)"
    by (cases "process_pairs L p keys fs")
  show ?thesis
  proof (cases r)
    case None
    with ps show ?thesis by simp
  next
    case (Some e)
    with process_pairs_events_set [OF ps] have "ErrCh e \<in> set ev" by simp
    moreover from Process_listed [where kv = kv, OF assms(1) ps] Some
    have "set ev \<subseteq> set (snd (snd (Process L p kv fs)))" by auto
    ultimately show ?thesis using assms(2) by blast
  qed
qed

lemma Process_determinations:
  assumes "kv (From (config p)) = Inr keys" and "process_pairs L p keys fs = (None, fs', ev)"
  shows "determinations (snd (snd (Process L p kv fs))) = determinations ev"
  using Process_listed [where kv = kv, OF assms]
  by (simp add: determinations_append)

text \<open>
  Claim C8, amended. A processor in dry-run mode leaves the file system as it is: its
  initialisation does not create the destination directory, and a pass creates,
  truncates and writes nothing, whatever is listed. The determinations of a dry pass are
  the fingerprint comparisons against that file system. They are those of a pass that is
  not a dry run, on the same file system and listing, when the listed pairs have
  pairwise distinct target files and none of that pass's writes fails, that is, that pass
  forwards no error.
\<close>

theorem dry_run_no_mutation:
  assumes "dry p"
  shows "init p fs = (fs, [Log DestinationWillBeCreated])
       \<and> fst (snd (Process L p kv fs)) = fs
       \<and> (kv (From (config p)) = Inr keys \<longrightarrow>
            determinations (snd (snd (Process L p kv fs))) = comparisons L p fs keys)
       \<and> (\<not> dry q \<and> config q = config p \<and> kv (From (config p)) = Inr keys
          \<and> distinct (map (target L p) (filter (\<lambda>pair. leaf pair \<noteq> []) keys))
          \<and> (\<forall>err. ErrCh err \<notin> set (snd (snd (Process L q kv fs))))
          \<longrightarrow> determinations (snd (snd (Process L p kv fs)))
              = determinations (snd (snd (Process L q kv fs))))"
proof -
  have 1: "init p fs = (fs, [Log DestinationWillBeCreated])"
    using assms by (simp add: init_def)
  have 2: "fst (snd (Process L p kv fs)) = fs"
  proof (cases "kv (From (config p))")
    case (Inl err)
    then show ?thesis by (simp add: Process_listing_error)
  next
    case (Inr keys')
    from process_pairs_dry [OF assms, of L keys' fs] obtain ev
      where "process_pairs L p keys' fs = (None, fs, ev)" by blast
    from Process_listed [where kv = kv, OF Inr this] show ?thesis by simp
  qed
  have 3: "determinations (snd (snd (Process L p kv fs))) = comparisons L p fs keys"
    if kv: "kv (From (config p)) = Inr keys"
  proof -
    from process_pairs_dry [OF assms, of L keys fs] obtain ev
      where ev: "process_pairs L p keys fs = (None, fs, ev)"
        "determinations ev = comparisons L p fs keys" by blast
    from Process_determinations [where kv = kv, OF kv ev(1)] ev(2) show ?thesis by simp
  qed
  have 4: "determinations (snd (snd (Process L p kv fs)))
      = determinations (snd (snd (Process L q kv fs)))"
    if q: "\<not> dry q" "config q = config p" and kv: "kv (From (config p)) = Inr keys"
      and dist: "distinct (map (target L p) (filter (\<lambda>pair. leaf pair \<noteq> []) keys))"
      and ne: "\<forall>err. ErrCh err \<notin> set (snd (snd (Process L q kv fs)))"
  proof -
    have tq: "target L q = target L p" using q(2) by (simp add: target_def fun_eq_iff)
    have cq: "comparisons L q fs keys = comparisons L p fs keys"
      by (simp add: comparisons_def tq)
    have kvq: "kv (From (config q)) = Inr keys" using kv q(2) by simp
    from Process_no_error [where kv = kv, OF kvq ne] obtain fs' ev
      where ps: "process_pairs L q keys fs = (None, fs', ev)" by blast
    from dist tq have distq: "distinct (map (target L q) (filter (\<lambda>pair. leaf pair \<noteq> []) keys))"
      by simp
    from process_pairs_nondry [OF q(1) distq ps]
    have ev: "determinations ev = comparisons L q fs keys" by blast
    from Process_determinations [where kv = kv, OF kvq ps] ev cq 3 [OF kv] show ?thesis by simp
  qed
  from 1 2 3 4 show ?thesis by blast
qed

text \<open>
  Claim C8, amended, at a listing of two pairs with distinct file names and a
  destination that holds the first file already, which cannot be opened for writing:
  the dry pass touches nothing and determines, as the pass that writes does, that the
  first is identical and the second is to be written.
\<close>

theorem dry_run_no_mutation_witness:
  "init \<lparr>config = \<lparr>From = ''app'', To = ''out'', PidFile = None\<rparr>, once = False, dry = True\<rparr>
      (empty_fs\<lparr>files := [''out/a'' \<mapsto> ''1''], dirs := {''out''}, denied := {''out/a''}\<rparr>)
     = (empty_fs\<lparr>files := [''out/a'' \<mapsto> ''1''], dirs := {''out''}, denied := {''out/a''}\<rparr>,
        [Log DestinationWillBeCreated])
   \<and> fst (snd (Process stub_lib
        \<lparr>config = \<lparr>From = ''app'', To = ''out'', PidFile = None\<rparr>, once = False, dry = True\<rparr>
        (\<lambda>prefix. Inr [\<lparr>Key = ''app/a'', Value = ''1''\<rparr>, \<lparr>Key = ''app/b'', Value = ''2''\<rparr>])
        (empty_fs\<lparr>files := [''out/a'' \<mapsto> ''1''], dirs := {''out''}, denied := {''out/a''}\<rparr>)))
     = empty_fs\<lparr>files := [''out/a'' \<mapsto> ''1''], dirs := {''out''}, denied := {''out/a''}\<rparr>
   \<and> determinations (snd (snd (Process stub_lib
        \<lparr>config = \<lparr>From = ''app'', To = ''out'', PidFile = None\<rparr>, once = False, dry = True\<rparr>
        (\<lambda>prefix. Inr [\<lparr>Key = ''app/a'', Value = ''1''\<rparr>, \<lparr>Key = ''app/b'', Value = ''2''\<rparr>])
        (empty_fs\<lparr>files := [''out/a'' \<mapsto> ''1''], dirs := {''out''}, denied := {''out/a''}\<rparr>))))
     = determinations (snd (snd (Process stub_lib
        \<lparr>config = \<lparr>From = ''app'', To = ''out'', PidFile = None\<rparr>, once = False, dry = False\<rparr>
        (\<lambda>prefix. Inr [\<lparr>Key = ''app/a'', Value = ''1''\<rparr>, \<lparr>Key = ''app/b'', Value = ''2''\<rparr>])
        (empty_fs\<lparr>files := [''out/a'' \<mapsto> ''1''], dirs := {''out''}, denied := {''out/a''}\<rparr>))))
   \<and> determinations (snd (snd (Process stub_lib
        \<lparr>config = \<lparr>From = ''app'', To = ''out'', PidFile = None\<rparr>, once = False, dry = False\<rparr>
        (\<lambda>prefix. Inr [\<lparr>Key = ''app/a'', Value = ''1''\<rparr>, \<lparr>Key = ''app/b'', Value = ''2''\<rparr>])
        (empty_fs\<lparr>files := [''out/a'' \<mapsto> ''1''], dirs := {''out''}, denied := {''out/a''}\<rparr>))))
     = [False, True]"
proof -
  let ?p = "\<lparr>config = \<lparr>From = ''app'', To = ''out'', PidFile = None\<rparr>, once = False, dry = True\<rparr>"
  let ?q = "\<lparr>config = \<lparr>From = ''app'', To = ''out'', PidFile = None\<rparr>, once = False, dry = False\<rparr>"
  let ?a = "\<lparr>Key = ''app/a'', Value = ''1''\<rparr>"
  let ?b = "\<lparr>Key = ''app/b'', Value = ''2''\<rparr>"
  let ?kv = "\<lambda>prefix :: string. Inr [?a, ?b] :: error + KVPair list"
  let ?fs = "empty_fs\<lparr>files := [''out/a'' \<mapsto> ''1''], dirs := {''out''}, denied := {''out/a''}\<rparr>"
  let ?fs' = "?fs\<lparr>files := (files ?fs)(''out/b'' \<mapsto> ''2'')\<rparr>"
  have d: "dry ?p" by simp
  have sb: "Sum256 stub_lib ''2'' \<noteq> []" by (simp add: stub_lib_def)
  have lb: "leaf ?b = ''b''" and la: "leaf ?a = ''a''" by (simp_all add: leaf_def)
  have tb: "target stub_lib ?q ?b = ''out/b''" and ta: "target stub_lib ?q ?a = ''out/a''"
    by (simp_all add: target_def la lb stub_lib_def)
  have ra: "ReadFile ?fs ''out/a'' = Inr ''1''" by (simp add: ReadFile_def empty_fs_def)
  have rb: "ReadFile ?fs ''out/b'' = Inl (Error ''open out/b: no such file or directory'')"
    by (simp add: ReadFile_def empty_fs_def)
  have wa: "\<not> would_write stub_lib ?fs ''out/a'' ''1''"
    by (simp add: would_write_def calculateFileHash_def ra)
  have wb: "would_write stub_lib ?fs ''out/b'' ''2''"
    using read_failure_would_write(2) [OF rb sb] .
  have nf: "\<not> write_fails ?fs ''out/b'' ''2''" by (simp add: write_fails_def empty_fs_def)
  have sv: "save ?q ?fs ''out/b'' ''2'' = (None, ?fs', [Log (Saved ''out/b'')])"
    using nf by (simp add: save_ok)
  have pa: "process_pair stub_lib ?q ?a ?fs = (None, ?fs, [Log (Skipping ''app/a'')])"
    using wa by (simp add: process_pair_cases la ta)
  have pb: "process_pair stub_lib ?q ?b ?fs = (None, ?fs', [Log (Saved ''out/b'')])"
    using wb sv by (simp add: process_pair_cases lb tb)
  have ps: "process_pairs stub_lib ?q [?a, ?b] ?fs
      = (None, ?fs', [Log (Skipping ''app/a''), Log (Saved ''out/b'')])"
    using pa pb by simp
  have kq: "?kv (From (config ?q)) = Inr [?a, ?b]" by simp
  from Process_listed [where kv = ?kv, OF kq ps]
  have run: "snd (snd (Process stub_lib ?q ?kv ?fs))
      = [Log (ConsulPath ''app''), Log (Skipping ''app/a''), Log (Saved ''out/b'')]"
    by simp
  have ne: "\<forall>err. ErrCh err \<notin> set (snd (snd (Process stub_lib ?q ?kv ?fs)))"
    unfolding run by simp
  have dq: "determinations (snd (snd (Process stub_lib ?q ?kv ?fs))) = [False, True]"
    unfolding run by simp
  have h: "\<not> dry ?q \<and> config ?q = config ?p \<and> ?kv (From (config ?p)) = Inr [?a, ?b]
      \<and> distinct (map (target stub_lib ?p) (filter (\<lambda>pair. leaf pair \<noteq> []) [?a, ?b]))"
    by (simp add: target_def leaf_def stub_lib_def)
  from dry_run_no_mutation [OF d, where fs = ?fs and L = stub_lib and kv = ?kv
      and keys = "[?a, ?b]" and q = ?q] h ne dq
  show ?thesis by blast
qed

lemma duplicate_leaf_determinations:
  "determinations (snd (snd (Process stub_lib
      \<lparr>config = \<lparr>From = ''app'', To = ''out'', PidFile = None\<rparr>, once = False, dry = True\<rparr>
      (\<lambda>prefix. Inr [\<lparr>Key = ''app/a/x'', Value = ''1''\<rparr>, \<lparr>Key = ''app/b/x'', Value = ''1''\<rparr>])
      (empty_fs\<lparr>dirs := {''out''}\<rparr>)))) = [True, True]"
  "determinations (snd (snd (Process stub_lib
      \<lparr>config = \<lparr>From = ''app'', To = ''out'', PidFile = None\<rparr>, once = False, dry = False\<rparr>
      (\<lambda>prefix. Inr [\<lparr>Key = ''app/a/x'', Value = ''1''\<rparr>, \<lparr>Key = ''app/b/x'', Value = ''1''\<rparr>])
      (empty_fs\<lparr>dirs := {''out''}\<rparr>)))) = [True, False]"
proof -
  let ?pd = "\<lparr>config = \<lparr>From = ''app'', To = ''out'', PidFile = None\<rparr>, once = False, dry = True\<rparr>"
  let ?pn = "\<lparr>config = \<lparr>From = ''app'', To = ''out'', PidFile = None\<rparr>, once = False, dry = False\<rparr>"
  let ?a = "\<lparr>Key = ''app/a/x'', Value = ''1''\<rparr>"
  let ?b = "\<lparr>Key = ''app/b/x'', Value = ''1''\<rparr>"
  let ?fs = "empty_fs\<lparr>dirs := {''out''}\<rparr>"
  let ?fs1 = "?fs\<lparr>files := (files ?fs)(''out/x'' \<mapsto> ''1'')\<rparr>"
  have s: "Sum256 stub_lib ''1'' \<noteq> []" by (simp add: stub_lib_def)
  have l: "leaf ?a = ''x''" "leaf ?b = ''x''" by (simp_all add: leaf_def)
  have t: "target stub_lib ?pd ?a = ''out/x''" "target stub_lib ?pd ?b = ''out/x''"
    "target stub_lib ?pn ?a = ''out/x''" "target stub_lib ?pn ?b = ''out/x''"
    by (simp_all add: target_def l stub_lib_def)
  have r: "ReadFile ?fs ''out/x'' = Inl (Error ''open out/x: no such file or directory'')"
    by (simp add: ReadFile_def empty_fs_def)
  have w: "would_write stub_lib ?fs ''out/x'' ''1''"
    using read_failure_would_write(2) [OF r s] .
  have r1: "ReadFile ?fs1 ''out/x'' = Inr ''1''" by (simp add: ReadFile_def empty_fs_def)
  have w1: "\<not> would_write stub_lib ?fs1 ''out/x'' ''1''"
    using r1 by (simp add: would_write_def calculateFileHash_def)
  have nf: "\<not> write_fails ?fs ''out/x'' ''1''" by (simp add: write_fails_def empty_fs_def)
  have sv: "save ?pn ?fs ''out/x'' ''1'' = (None, ?fs1, [Log (Saved ''out/x'')])"
    using nf by (simp add: save_ok)
  have pa: "process_pair stub_lib ?pn ?a ?fs = (None, ?fs1, [Log (Saved ''out/x'')])"
    using w sv by (simp add: process_pair_cases l t)
  have pb: "process_pair stub_lib ?pn ?b ?fs1 = (None, ?fs1, [Log (Skipping ''app/b/x'')])"
    using w1 by (simp add: process_pair_cases l t)
  have da: "process_pair stub_lib ?pd ?a ?fs = (None, ?fs, [Log (WillBeCreated ''out/x'' ''1'')])"
    using w by (simp add: process_pair_cases l t save_dry)
  have db: "process_pair stub_lib ?pd ?b ?fs = (None, ?fs, [Log (WillBeCreated ''out/x'' ''1'')])"
    using w by (simp add: process_pair_cases l t save_dry)
  have psn: "process_pairs stub_lib ?pn [?a, ?b] ?fs
      = (None, ?fs1, [Log (Saved ''out/x''), Log (Skipping ''app/b/x'')])"
    using pa pb by simp
  have psd: "process_pairs stub_lib ?pd [?a, ?b] ?fs
      = (None, ?fs, [Log (WillBeCreated ''out/x'' ''1''), Log (WillBeCreated ''out/x'' ''1'')])"
    using da db by simp
  have kd: "(\<lambda>prefix :: string. Inr [?a, ?b] :: error + KVPair list) (From (config ?pd)) = Inr [?a, ?b]"
    and kn: "(\<lambda>prefix :: string. Inr [?a, ?b] :: error + KVPair list) (From (config ?pn)) = Inr [?a, ?b]"
    by simp_all
  show "determinations (snd (snd (Process stub_lib ?pd (\<lambda>prefix. Inr [?a, ?b]) ?fs))) = [True, True]"
    using Process_determinations [where kv = "\<lambda>prefix. Inr [?a, ?b]", OF kd psd] by simp
  show "determinations (snd (snd (Process stub_lib ?pn (\<lambda>prefix. Inr [?a, ?b]) ?fs))) = [True, False]"
    using Process_determinations [where kv = "\<lambda>prefix. Inr [?a, ?b]", OF kn psn] by simp
qed

text \<open>
  Claim C8 as stated fails for its second part. Two listed keys that end in the same
  segment have the same target file. With no such file, a dry pass determines that both
  are to be written; a pass that writes finds, at the second, the file it has just
  written for the first, and skips it.
\<close>

theorem dry_run_determinations_counterexample:
  "determinations (snd (snd (Process stub_lib
      \<lparr>config = \<lparr>From = ''app'', To = ''out'', PidFile = None\<rparr>, once = False, dry = True\<rparr>
      (\<lambda>prefix. Inr [\<lparr>Key = ''app/a/x'', Value = ''1''\<rparr>, \<lparr>Key = ''app/b/x'', Value = ''1''\<rparr>])
      (empty_fs\<lparr>dirs := {''out''}\<rparr>))))
   \<noteq> determinations (snd (snd (Process stub_lib
      \<lparr>config = \<lparr>From = ''app'', To = ''out'', PidFile = None\<rparr>, once = False, dry = False\<rparr>
      (\<lambda>prefix. Inr [\<lparr>Key = ''app/a/x'', Value = ''1''\<rparr>, \<lparr>Key = ''app/b/x'', Value = ''1''\<rparr>])
      (empty_fs\<lparr>dirs := {''out''}\<rparr>))))"
  by (simp only: duplicate_leaf_determinations) simp

subsection \<open>The runner\<close>

lemma deletePid_events:
  "deletePid r fs = (err, fs', ev) \<Longrightarrow>
     (\<forall>e. ErrCh e \<notin> set ev) \<and> (\<forall>b. DoneCh b \<notin> set ev) \<and> CloseDoneCh \<notin> set ev"
  by (auto simp add: deletePid_def Let_def split: if_splits file_info.splits sum.splits)

lemma Stop_stopped: "stopped r \<Longrightarrow> Stop r fs = Inr (r, fs, [])"
  by (simp add: Stop_def)

lemma Stop_first:
  assumes "\<not> stopped r" and "\<not> done_closed r" and "deletePid r fs = (err, fs', ev)"
  shows "Stop r fs = Inr (r\<lparr>stopped := True, done_closed := True\<rparr>, fs',
           [Log RunnerStopping] @ ev
           @ (case err of
                Some e \<Rightarrow> [Log (CouldNotRemovePid (StringVal (PidFile (config r))) e)]
              | None \<Rightarrow> [])
           @ [CloseDoneCh])"
  using assms by (simp add: Stop_def)

lemma Stop_times_stopped: "stopped r \<Longrightarrow> Stop_times n r fs = Inr (r, fs, [])"
  by (induction n) (simp_all add: Stop_stopped)

text \<open>
  Claim C9. On a runner whose done channel has been closed only by \<open>Stop\<close>, a call of
  \<open>Stop\<close> returns without a panic and leaves the runner stopped; a call on the stopped
  runner changes nothing and logs, sends and closes nothing, so any number of calls one
  after the other does what the first call does: the done channel is closed at most
  once and the file system is touched by the first call only. Nothing is sent on the
  error or the done channel, whether the PID file could be removed or not: a failure is
  logged only.
\<close>

theorem Stop_idempotent:
  assumes "done_closed r \<longrightarrow> stopped r"
  shows "\<exists>r' fs' ev. Stop r fs = Inr (r', fs', ev)
           \<and> stopped r'
           \<and> Stop r' fs' = Inr (r', fs', [])
           \<and> Stop_times (Suc n) r fs = Inr (r', fs', ev)
           \<and> count_list ev CloseDoneCh \<le> 1
           \<and> (\<forall>e. ErrCh e \<notin> set ev) \<and> (\<forall>b. DoneCh b \<notin> set ev)
           \<and> (\<forall>e. fst (deletePid r fs) = Some e \<and> \<not> stopped r \<longrightarrow>
                 Log (CouldNotRemovePid (StringVal (PidFile (config r))) e) \<in> set ev)"
proof (cases "stopped r")
  case True
  then show ?thesis by (simp add: Stop_stopped Stop_times_stopped)
next
  case False
  with assms have nc: "\<not> done_closed r" by simp
  obtain err fs' ev where dp: "deletePid r fs = (err, fs', ev)"
    by (cases "deletePid r fs")
  let ?r = "r\<lparr>stopped := True, done_closed := True\<rparr>"
  let ?ev = "[Log RunnerStopping] @ ev
           @ (case err of
                Some e \<Rightarrow> [Log (CouldNotRemovePid (StringVal (PidFile (config r))) e)]
              | None \<Rightarrow> [])
           @ [CloseDoneCh]"
  have st: "Stop r fs = Inr (?r, fs', ?ev)" using False nc dp by (rule Stop_first)
  have s': "stopped ?r" by simp
  have again: "Stop ?r fs' = Inr (?r, fs', [])" using s' by (rule Stop_stopped)
  have times: "Stop_times (Suc n) r fs = Inr (?r, fs', ?ev)"
    using st Stop_times_stopped [OF s', of n fs'] by simp
  note de = deletePid_events [OF dp]
  have "count_list ev CloseDoneCh = 0" using de by (simp add: count_list_0_iff)
  then have cnt: "count_list ?ev CloseDoneCh \<le> 1" by (cases err) simp_all
  have noerr: "(\<forall>e. ErrCh e \<notin> set ?ev) \<and> (\<forall>b. DoneCh b \<notin> set ?ev)"
    using de by (cases err) auto
  have warn: "\<forall>e. fst (deletePid r fs) = Some e \<and> \<not> stopped r \<longrightarrow>
      Log (CouldNotRemovePid (StringVal (PidFile (config r))) e) \<in> set ?ev"
    using dp by auto
  from st s' again times cnt noerr warn show ?thesis by blast
qed

text \<open>
  Claim C9 at a fresh runner whose PID file does not exist when it is stopped three
  times: the first call logs the failure and closes the done channel, and that is all.
\<close>

theorem Stop_idempotent_witness:
  "Stop_times 3 (NewRunner \<lparr>From = ''app'', To = ''out'', PidFile = Some ''run.pid''\<rparr> False False) empty_fs
     = Inr (\<lparr>config = \<lparr>From = ''app'', To = ''out'', PidFile = Some ''run.pid''\<rparr>,
              once = False, dry = False, stopped = True, done_closed = True\<rparr>,
            empty_fs,
            [Log RunnerStopping, Log (RemovingPid ''run.pid''),
             Log (CouldNotRemovePid ''run.pid''
               (Error ''runner: could not remove pid file: stat run.pid: no such file or directory'')),
             CloseDoneCh])"
proof -
  let ?r = "NewRunner \<lparr>From = ''app'', To = ''out'', PidFile = Some ''run.pid''\<rparr> False False"
  have h: "done_closed ?r \<longrightarrow> stopped ?r" by (simp add: NewRunner_def)
  have st: "Stop ?r empty_fs
     = Inr (\<lparr>config = \<lparr>From = ''app'', To = ''out'', PidFile = Some ''run.pid''\<rparr>,
              once = False, dry = False, stopped = True, done_closed = True\<rparr>,
            empty_fs,
            [Log RunnerStopping, Log (RemovingPid ''run.pid''),
             Log (CouldNotRemovePid ''run.pid''
               (Error ''runner: could not remove pid file: stat run.pid: no such file or directory'')),
             CloseDoneCh])"
    by (simp add: Stop_def NewRunner_def deletePid_def StringVal_def Stat_def empty_fs_def)
  from Stop_idempotent [OF h, of empty_fs 2] st show ?thesis
    by (auto simp add: numeral_3_eq_3)
qed

lemma NewRunner_not_closed:
  "done_closed (NewRunner cfg dry_flag once_flag) \<longrightarrow> stopped (NewRunner cfg dry_flag once_flag)"
  by (simp add: NewRunner_def)

lemma Stop_keeps_invariant:
  "Stop r fs = Inr (r', fs', ev) \<Longrightarrow> done_closed r \<longrightarrow> stopped r \<Longrightarrow> done_closed r' \<longrightarrow> stopped r'"
  by (auto simp add: Stop_def split: if_splits prod.splits)

lemma storePid_files:
  assumes "storePid r pid fs = (None, fs1, ev1)"
  shows "fs1 = (if StringVal (PidFile (config r)) = [] then fs
                else fs\<lparr>files := (files fs)(StringVal (PidFile (config r)) \<mapsto> decimal pid)\<rparr>)"
  using assms
  by (auto simp add: storePid_def Let_def Create_def WriteAll_def
      split: if_splits option.splits)

lemma NewProcessor_files:
  assumes "NewProcessor cfg once_flag dry_flag client fs1 = Inr (pr, fs2, ev3)"
  shows "files fs2 = files fs1 \<and> config pr = cfg \<and> once pr = once_flag \<and> dry pr = dry_flag
       \<and> determinations ev3 = []"
  using assms
  by (auto simp add: NewProcessor_def init_def MkdirAll_def logError_def Let_def
      split: option.splits if_splits sum.splits)

text \<open>
  Claim C2, amended. \<open>Start\<close> does, in this order: (1) when a PID file is configured it
  creates or truncates it and writes the process id in decimal; when that fails it sends
  the error on the error channel and returns, whatever would have woken the loop;
  (2) it calls \<open>Run\<close>, which logs one line and returns no error, and creates the
  processor: no pass is made, and no file other than the PID file has changed when the
  loop is entered; (3) it enters the loop, where each tick of the timer makes one pass
  of the processor on the file system left by the pass before.
\<close>

theorem Start_sequence:
  "(\<forall>err fs1 ev1. storePid r pid fs = (Some err, fs1, ev1) \<longrightarrow>
       Start L r pid client fs wakes = (Returned, fs1, [Log RunnerStarting] @ ev1 @ [ErrCh err]))
   \<and> (\<forall>fs1 ev1. storePid r pid fs = (None, fs1, ev1) \<longrightarrow>
        fs1 = (if StringVal (PidFile (config r)) = [] then fs
               else fs\<lparr>files := (files fs)(StringVal (PidFile (config r)) \<mapsto> decimal pid)\<rparr>))
   \<and> (\<forall>fs1 ev1 pr fs2 ev3.
        storePid r pid fs = (None, fs1, ev1)
        \<and> NewProcessor (config r) (once r) (dry r) client fs1 = Inr (pr, fs2, ev3) \<longrightarrow>
          files fs2 = files fs1 \<and> determinations ev3 = []
          \<and> Start L r pid client fs [] =
              (Selecting, fs2,
               [Log RunnerStarting] @ ev1 @ [Log RunningInitial, Log InitiatingRun] @ ev3)
          \<and> Start L r pid client fs wakes =
              (case runner_loop L pr wakes fs2 of
                 (out, fs3, ev4) \<Rightarrow>
                   (out, fs3,
                    [Log RunnerStarting] @ ev1 @ [Log RunningInitial, Log InitiatingRun] @ ev3 @ ev4)))
   \<and> runner_loop L p (Tick kv # wakes) fs0 =
        (case Process L p kv fs0 of
           (status, fs', ev) \<Rightarrow>
             (case runner_loop L p wakes fs' of (out, fs'', ev') \<Rightarrow> (out, fs'', ev @ ev')))"
proof -
  have 1: "\<forall>err fs1 ev1. storePid r pid fs = (Some err, fs1, ev1) \<longrightarrow>
       Start L r pid client fs wakes = (Returned, fs1, [Log RunnerStarting] @ ev1 @ [ErrCh err])"
    by (simp add: Start_def)
  have 2: "\<forall>fs1 ev1. storePid r pid fs = (None, fs1, ev1) \<longrightarrow>
        fs1 = (if StringVal (PidFile (config r)) = [] then fs
               else fs\<lparr>files := (files fs)(StringVal (PidFile (config r)) \<mapsto> decimal pid)\<rparr>)"
    using storePid_files by blast
  have 3: "files fs2 = files fs1 \<and> determinations ev3 = []
          \<and> Start L r pid client fs [] =
              (Selecting, fs2,
               [Log RunnerStarting] @ ev1 @ [Log RunningInitial, Log InitiatingRun] @ ev3)
          \<and> Start L r pid client fs wakes =
              (case runner_loop L pr wakes fs2 of
                 (out, fs3, ev4) \<Rightarrow>
                   (out, fs3,
                    [Log RunnerStarting] @ ev1 @ [Log RunningInitial, Log InitiatingRun] @ ev3 @ ev4))"
    if "storePid r pid fs = (None, fs1, ev1)"
      and "NewProcessor (config r) (once r) (dry r) client fs1 = Inr (pr, fs2, ev3)"
    for fs1 ev1 pr fs2 ev3
    using that NewProcessor_files [OF that(2)]
    by (simp add: Start_def Run_def split: prod.splits)
  have 4: "runner_loop L p (Tick kv # wakes) fs0 =
        (case Process L p kv fs0 of
           (status, fs', ev) \<Rightarrow>
             (case runner_loop L p wakes fs' of (out, fs'', ev') \<Rightarrow> (out, fs'', ev @ ev')))"
    by simp
  from 1 2 3 4 show ?thesis by blast
qed

lemma one_pair_pass:
  assumes "files fs ''out/a'' = None" and "''out/a'' \<notin> dirs fs" and "''out/a'' \<notin> denied fs"
    and "room fs ''out/a'' = None"
  shows "Process stub_lib \<lparr>config = \<lparr>From = ''app'', To = ''out'', PidFile = pf\<rparr>, once = True, dry = False\<rparr>
      (\<lambda>prefix. Inr [\<lparr>Key = ''app/a'', Value = ''1''\<rparr>]) fs
     = (0, fs\<lparr>files := (files fs)(''out/a'' \<mapsto> ''1'')\<rparr>,
        [Log (ConsulPath ''app''), Log (Saved ''out/a''), DoneCh True])"
proof -
  let ?p = "\<lparr>config = \<lparr>From = ''app'', To = ''out'', PidFile = pf\<rparr>, once = True, dry = False\<rparr>"
  let ?a = "\<lparr>Key = ''app/a'', Value = ''1''\<rparr>"
  have s: "Sum256 stub_lib ''1'' \<noteq> []" by (simp add: stub_lib_def)
  have l: "leaf ?a = ''a''" by (simp add: leaf_def)
  have t: "target stub_lib ?p ?a = ''out/a''" by (simp add: target_def l stub_lib_def)
  have r: "ReadFile fs ''out/a'' = Inl (Error ''open out/a: no such file or directory'')"
    using assms(1) by (simp add: ReadFile_def)
  have w: "would_write stub_lib fs ''out/a'' ''1''"
    using read_failure_would_write(2) [OF r s] .
  have nf: "\<not> write_fails fs ''out/a'' ''1''" using assms by (simp add: write_fails_def)
  have sv: "save ?p fs ''out/a'' ''1''
      = (None, fs\<lparr>files := (files fs)(''out/a'' \<mapsto> ''1'')\<rparr>, [Log (Saved ''out/a'')])"
    using nf by (simp add: save_ok)
  have pp: "process_pairs stub_lib ?p [?a] fs
      = (None, fs\<lparr>files := (files fs)(''out/a'' \<mapsto> ''1'')\<rparr>, [Log (Saved ''out/a'')])"
    using w sv by (simp add: process_pair_cases l t)
  have kv: "(\<lambda>prefix :: string. Inr [?a] :: error + KVPair list) (From (config ?p)) = Inr [?a]"
    by simp
  from Process_listed [where kv = "\<lambda>prefix. Inr [?a]", OF kv pp] show ?thesis by simp
qed

text \<open>
  Claim C2, amended, at a run-once runner with a PID file and process id 42, woken by one
  tick and then by the done channel: the PID file is written first, nothing is
  synchronized before the loop, and the tick makes the one pass. When the PID path is a
  directory the same start sends the error and returns, and the tick is never served.
\<close>

theorem Start_sequence_witness:
  "Start stub_lib (NewRunner \<lparr>From = ''app'', To = ''out'', PidFile = Some ''run.pid''\<rparr> False True)
      42 None (empty_fs\<lparr>dirs := {''out''}\<rparr>) []
     = (Selecting, empty_fs\<lparr>files := [''run.pid'' \<mapsto> ''42''], dirs := {''out''}\<rparr>,
        [Log RunnerStarting, Log (CreatingPid ''run.pid''), Log RunningInitial, Log InitiatingRun,
         Log CreatingProcessor])
   \<and> Start stub_lib (NewRunner \<lparr>From = ''app'', To = ''out'', PidFile = Some ''run.pid''\<rparr> False True)
      42 None (empty_fs\<lparr>dirs := {''out''}\<rparr>)
      [Tick (\<lambda>prefix. Inr [\<lparr>Key = ''app/a'', Value = ''1''\<rparr>]), DoneReceived]
     = (Returned,
        empty_fs\<lparr>files := [''run.pid'' \<mapsto> ''42'', ''out/a'' \<mapsto> ''1''], dirs := {''out''}\<rparr>,
        [Log RunnerStarting, Log (CreatingPid ''run.pid''), Log RunningInitial, Log InitiatingRun,
         Log CreatingProcessor, Log (ConsulPath ''app''), Log (Saved ''out/a''), DoneCh True,
         Log ReceivedFinish])
   \<and> Start stub_lib (NewRunner \<lparr>From = ''app'', To = ''out'', PidFile = Some ''run.pid''\<rparr> False True)
      42 None (empty_fs\<lparr>dirs := {''out'', ''run.pid''}\<rparr>)
      [Tick (\<lambda>prefix. Inr [\<lparr>Key = ''app/a'', Value = ''1''\<rparr>]), DoneReceived]
     = (Returned, empty_fs\<lparr>dirs := {''out'', ''run.pid''}\<rparr>,
        [Log RunnerStarting, Log (CreatingPid ''run.pid''),
         ErrCh (Error ''runner: could not open pid file: open run.pid: is a directory'')])"
proof -
  let ?bad = "empty_fs\<lparr>dirs := {''out'', ''run.pid''}\<rparr>"
  have spf: "storePid (NewRunner \<lparr>From = ''app'', To = ''out'', PidFile = Some ''run.pid''\<rparr> False True) 42 ?bad
      = (Some (Error ''runner: could not open pid file: open run.pid: is a directory''), ?bad,
         [Log (CreatingPid ''run.pid'')])"
    by (simp add: storePid_def NewRunner_def StringVal_def Create_def empty_fs_def Let_def)
  from Start_sequence [where r = "NewRunner \<lparr>From = ''app'', To = ''out'', PidFile = Some ''run.pid''\<rparr> False True"
      and pid = 42 and fs = ?bad and L = stub_lib and client = None
      and wakes = "[Tick (\<lambda>prefix. Inr [\<lparr>Key = ''app/a'', Value = ''1''\<rparr>]), DoneReceived]"] spf
  have failed: "Start stub_lib (NewRunner \<lparr>From = ''app'', To = ''out'', PidFile = Some ''run.pid''\<rparr> False True)
      42 None ?bad [Tick (\<lambda>prefix. Inr [\<lparr>Key = ''app/a'', Value = ''1''\<rparr>]), DoneReceived]
     = (Returned, ?bad,
        [Log RunnerStarting] @ [Log (CreatingPid ''run.pid'')]
        @ [ErrCh (Error ''runner: could not open pid file: open run.pid: is a directory'')])"
    by blast
  let ?cfg = "\<lparr>From = ''app'', To = ''out'', PidFile = Some ''run.pid''\<rparr>"
  let ?r = "NewRunner ?cfg False True"
  let ?fs = "empty_fs\<lparr>dirs := {''out''}\<rparr>"
  let ?fs1 = "empty_fs\<lparr>files := [''run.pid'' \<mapsto> ''42''], dirs := {''out''}\<rparr>"
  let ?pr = "\<lparr>config = ?cfg, once = True, dry = False\<rparr>"
  let ?kv = "\<lambda>prefix :: string. Inr [\<lparr>Key = ''app/a'', Value = ''1''\<rparr>] :: error + KVPair list"
  have dec: "decimal 42 = ''42''" by (simp add: decimal.simps)
  have sp: "storePid ?r 42 ?fs = (None, ?fs1, [Log (CreatingPid ''run.pid'')])"
    by (simp add: storePid_def NewRunner_def StringVal_def Create_def WriteAll_def dec empty_fs_def Let_def)
  have np: "NewProcessor (config ?r) (once ?r) (dry ?r) None ?fs1 = Inr (?pr, ?fs1, [Log CreatingProcessor])"
    by (simp add: NewProcessor_def NewRunner_def init_def Stat_def empty_fs_def)
  have pass: "Process stub_lib ?pr ?kv ?fs1
      = (0, ?fs1\<lparr>files := (files ?fs1)(''out/a'' \<mapsto> ''1'')\<rparr>,
         [Log (ConsulPath ''app''), Log (Saved ''out/a''), DoneCh True])"
    by (rule one_pair_pass) (simp_all add: empty_fs_def)
  have upd: "?fs1\<lparr>files := (files ?fs1)(''out/a'' \<mapsto> ''1'')\<rparr>
      = empty_fs\<lparr>files := [''run.pid'' \<mapsto> ''42'', ''out/a'' \<mapsto> ''1''], dirs := {''out''}\<rparr>"
    by (simp add: empty_fs_def)
  have loop: "runner_loop stub_lib ?pr [Tick ?kv, DoneReceived] ?fs1
      = (Returned, empty_fs\<lparr>files := [''run.pid'' \<mapsto> ''42'', ''out/a'' \<mapsto> ''1''], dirs := {''out''}\<rparr>,
         [Log (ConsulPath ''app''), Log (Saved ''out/a''), DoneCh True, Log ReceivedFinish])"
    using pass upd by simp
  from Start_sequence [where r = ?r and pid = 42 and fs = ?fs and L = stub_lib and client = None
      and wakes = "[Tick ?kv, DoneReceived]"] sp np
  have "Start stub_lib ?r 42 None ?fs [] =
          (Selecting, ?fs1,
           [Log RunnerStarting] @ [Log (CreatingPid ''run.pid'')]
           @ [Log RunningInitial, Log InitiatingRun] @ [Log CreatingProcessor])"
    and "Start stub_lib ?r 42 None ?fs [Tick ?kv, DoneReceived] =
          (case runner_loop stub_lib ?pr [Tick ?kv, DoneReceived] ?fs1 of
             (out, fs3, ev4) \<Rightarrow>
               (out, fs3,
                [Log RunnerStarting] @ [Log (CreatingPid ''run.pid'')]
                @ [Log RunningInitial, Log InitiatingRun] @ [Log CreatingProcessor] @ ev4))"
    by blast+
  then show ?thesis unfolding loop using failed by simp
qed

text \<open>
  Claim C2 as stated fails in its step (2). A runner with no PID file is started on a
  destination without the file \<open>out/a\<close>, while the remote store lists \<open>app/a\<close>. When it
  reaches the loop it has logged four lines and made no pass: the file is not there. The
  first tick makes the pass that writes it.
\<close>

theorem Start_initial_pass_counterexample:
  "Start stub_lib (NewRunner \<lparr>From = ''app'', To = ''out'', PidFile = Some []\<rparr> False True)
      42 None (empty_fs\<lparr>dirs := {''out''}\<rparr>) []
     = (Selecting, empty_fs\<lparr>dirs := {''out''}\<rparr>,
        [Log RunnerStarting, Log RunningInitial, Log InitiatingRun, Log CreatingProcessor])
   \<and> files (empty_fs\<lparr>dirs := {''out''}\<rparr>) ''out/a'' = None
   \<and> files (fst (snd (Start stub_lib
        (NewRunner \<lparr>From = ''app'', To = ''out'', PidFile = Some []\<rparr> False True)
        42 None (empty_fs\<lparr>dirs := {''out''}\<rparr>)
        [Tick (\<lambda>prefix. Inr [\<lparr>Key = ''app/a'', Value = ''1''\<rparr>])]))) ''out/a'' = Some ''1''"
proof -
  let ?cfg = "\<lparr>From = ''app'', To = ''out'', PidFile = Some []\<rparr>"
  let ?r = "NewRunner ?cfg False True"
  let ?fs = "empty_fs\<lparr>dirs := {''out''}\<rparr>"
  let ?pr = "\<lparr>config = ?cfg, once = True, dry = False\<rparr>"
  let ?kv = "\<lambda>prefix :: string. Inr [\<lparr>Key = ''app/a'', Value = ''1''\<rparr>] :: error + KVPair list"
  have sp: "storePid ?r 42 ?fs = (None, ?fs, [])"
    by (simp add: storePid_def NewRunner_def StringVal_def Let_def)
  have np: "NewProcessor (config ?r) (once ?r) (dry ?r) None ?fs = Inr (?pr, ?fs, [Log CreatingProcessor])"
    by (simp add: NewProcessor_def NewRunner_def init_def Stat_def empty_fs_def)
  have pass: "Process stub_lib ?pr ?kv ?fs
      = (0, ?fs\<lparr>files := (files ?fs)(''out/a'' \<mapsto> ''1'')\<rparr>,
         [Log (ConsulPath ''app''), Log (Saved ''out/a''), DoneCh True])"
    by (rule one_pair_pass) (simp_all add: empty_fs_def)
  have s0: "Start stub_lib ?r 42 None ?fs []
      = (Selecting, ?fs, [Log RunnerStarting, Log RunningInitial, Log InitiatingRun, Log CreatingProcessor])"
    using sp np by (simp add: Start_def Run_def)
  have s1: "fst (snd (Start stub_lib ?r 42 None ?fs [Tick ?kv]))
      = ?fs\<lparr>files := (files ?fs)(''out/a'' \<mapsto> ''1'')\<rparr>"
    using sp np pass by (simp add: Start_def Run_def)
  have f: "files ?fs ''out/a'' = None" by (simp add: empty_fs_def)
  show ?thesis using s0 f by (simp add: s1)
qed

end
